theory Spec2Isabelle
  imports Main "HOL-Library.AList" "HOL-Library.Multiset" "HOL-Library.Word"
begin

section \<open>Wire types\<close>

text \<open>
  Go's \<open>os.Error\<close> is an interface value that is either \<open>nil\<close> or carries a message:
  \<open>error option\<close>, with \<open>None\<close> for \<open>nil\<close>.
\<close>

type_synonym error = string

text \<open>
  Machine integers.  Times and durations are \<open>int64\<close>: 64-bit words, whose addition wraps
  and which are compared as signed numbers (\<open>sint\<close>).  Go's \<open>int\<close> has 32 bits in the
  version of the language this program is written in (the one of \<open>os.Error\<close>); it is
  modelled by \<open>int\<close> with the wrap-around written out: \<open>wrapInt\<close> is the value a sum or a
  difference of two \<open>int\<close>s has in the machine.  The capacities and counters of the
  mirrors are whatever the workers granted, so the sums the pool forms of them are
  wrapped.  A counter itself moves by one for each job handed out or returned, and a byte
  offset by one chunk; these single steps are taken to stay inside the range and are
  written without the wrap.
\<close>

definition wrapInt :: "int \<Rightarrow> int" where
  "wrapInt x = (x + 2 ^ 31) mod 2 ^ 32 - 2 ^ 31"

type_synonym byte = "8 word"

text \<open>
  Modelled from the spec: the wire types \<open>FileAttr\<close>, \<open>FileSet\<close> and \<open>Registration\<close> are
  declared outside the files at hand.  Of a \<open>FileAttr\<close> the code reads the content digest
  \<open>Hash\<close> (empty for entries without content); the path stands for the rest of the
  attributes.  A \<open>FileSet\<close> is the ordered sequence \<open>Files\<close>; a \<open>Registration\<close> carries the
  worker's \<open>Address\<close>.
\<close>

record FileAttr =
  Path :: string
  Hash :: string

record FileSet =
  Files :: "FileAttr list"

record Registration =
  Address :: string

section \<open>Mirror connection\<close>

text \<open>
  \<open>type mirrorConnection struct\<close>.  The three network handles are represented by whether
  they have been closed; what the peer answers is an argument of the operation that calls it.
\<close>

record mirrorConnection =
  workerAddr :: string
  rpcClientClosed :: bool
  connectionClosed :: bool
  reverseConnectionClosed :: bool
  maxJobs :: int
  availableJobs :: int
  pendingChanges :: "FileAttr list"

text \<open>\<open>func (me *mirrorConnection) queueFiles(fset FileSet)\<close>\<close>

definition queueFiles :: "FileSet \<Rightarrow> mirrorConnection \<Rightarrow> mirrorConnection" where
  "queueFiles fset me = me\<lparr>pendingChanges := pendingChanges me @ Files fset\<rparr>"

text \<open>
  \<open>func (me *mirrorConnection) sendFiles() os.Error\<close>.  \<open>call\<close> is the answer of
  \<open>me.rpcClient.Call\<close> to a method name and the \<open>Files\<close> of the request.  The result is
  the returned error, the RPCs issued (method and payload, in order) and the connection
  afterwards.
\<close>

definition sendFiles ::
  "(string \<Rightarrow> FileAttr list \<Rightarrow> error option) \<Rightarrow> mirrorConnection
    \<Rightarrow> error option \<times> (string \<times> FileAttr list) list \<times> mirrorConnection" where
  "sendFiles call me =
     (if length (pendingChanges me) = 0 then (None, [], me)
      else
        (case call ''Mirror.Update'' (pendingChanges me) of
           Some err \<Rightarrow> (Some err, [(''Mirror.Update'', pendingChanges me)], me)
         | None \<Rightarrow>
             (None, [(''Mirror.Update'', pendingChanges me)], me\<lparr>pendingChanges := []\<rparr>)))"

section \<open>Mirror pool\<close>

text \<open>
  \<open>type mirrorConnections struct\<close>.  A Go map is an association list with distinct keys;
  the order of the list is the order in which \<open>range\<close> visits it, and every statement
  below holds for every order.  \<open>mirrors\<close> maps an address to a pointer; \<open>conns\<close> is the
  store of the \<open>mirrorConnection\<close> objects those pointers refer to (a dropped connection
  stays in the store, as the jobs still running on it keep their pointer), and \<open>nextConn\<close>
  is the next unused pointer.  \<open>stats\<close> is opaque.
\<close>

record 's mirrorConnections =
  coordinator :: string
  keepAliveNs :: "64 word"
  periodNs :: "64 word"
  wantedMaxJobs :: int
  stats :: 's
  workers :: "(string \<times> bool) list"
  mirrors :: "(string \<times> nat) list"
  lastActionNs :: "64 word"
  conns :: "nat \<Rightarrow> mirrorConnection"
  nextConn :: nat

text \<open>
  What \<open>rpc.DialHTTP\<close> followed by \<open>Coordinator.List\<close> yields for a coordinator address.
\<close>

datatype coord_reply =
  DialError error
| CallError error
| Listed "Registration list"

text \<open>\<open>func (me *mirrorConnections) fetchWorkers() (newMap map[string]bool)\<close>\<close>

definition fetchWorkers ::
  "(string \<Rightarrow> coord_reply) \<Rightarrow> 's mirrorConnections \<Rightarrow> (string \<times> bool) list" where
  "fetchWorkers net me =
     (case net (coordinator me) of
        DialError err \<Rightarrow> []
      | CallError err \<Rightarrow> []
      | Listed regs \<Rightarrow> fold (\<lambda>v newMap. AList.update (Address v) True newMap) regs [])"

text \<open>\<open>func (me *mirrorConnections) refreshWorkers()\<close>\<close>

definition refreshWorkers ::
  "(string \<Rightarrow> coord_reply) \<Rightarrow> 's mirrorConnections \<Rightarrow> 's mirrorConnections" where
  "refreshWorkers net me =
     (let newWorkers = fetchWorkers net me
      in if length newWorkers > 0 then me\<lparr>workers := newWorkers\<rparr> else me)"

text \<open>
  \<open>func newMirrorConnections(m, workers, coordinator, maxJobs)\<close>; \<open>setKeepAliveNs(60e9, 60e9)\<close>.
  The store starts with no connection allocated; \<open>blankConnection\<close> fills the unused
  cells.  The goroutine \<open>periodicHouseholding\<close> that \<open>newMirrorConnections\<close> starts calls
  \<open>refreshWorkers\<close> and \<open>maybeDropConnections\<close> from time to time; its calls are steps of
  the reachable states below.
\<close>

definition blankConnection :: mirrorConnection where
  "blankConnection =
     \<lparr>workerAddr = [], rpcClientClosed = False, connectionClosed = False,
      reverseConnectionClosed = False, maxJobs = 0, availableJobs = 0, pendingChanges = []\<rparr>"

definition newMirrorConnections ::
  "'s \<Rightarrow> string list \<Rightarrow> string \<Rightarrow> int \<Rightarrow> 's mirrorConnections" where
  "newMirrorConnections newMasterStats ws coord mj =
     \<lparr>coordinator = coord, keepAliveNs = 60000000000, periodNs = 60000000000,
      wantedMaxJobs = mj, stats = newMasterStats,
      workers = fold (\<lambda>w m. AList.update w True m) ws [],
      mirrors = [], lastActionNs = 0,
      conns = (\<lambda>p. blankConnection), nextConn = 0\<rparr>"

text \<open>
  \<open>func (me *mirrorConnections) setKeepAliveNs(keepAliveNs float64, periodNs float64)\<close>;
  the arguments here are the values \<open>int64(keepAliveNs)\<close> and \<open>int64(periodNs)\<close> that the
  function stores.
\<close>

definition setKeepAliveNs ::
  "64 word \<Rightarrow> 64 word \<Rightarrow> 's mirrorConnections \<Rightarrow> 's mirrorConnections" where
  "setKeepAliveNs keepAlive period me = me\<lparr>keepAliveNs := keepAlive, periodNs := period\<rparr>"

text \<open>
  \<open>func (me *mirrorConnections) availableJobs() int\<close>: only positive counters count;
  \<open>a += mc.availableJobs\<close> is an addition of \<open>int\<close>s.
\<close>

fun availableJobsLoop :: "(nat \<Rightarrow> mirrorConnection) \<Rightarrow> (string \<times> nat) list \<Rightarrow> int \<Rightarrow> int" where
  "availableJobsLoop h [] a = a"
| "availableJobsLoop h ((addr, mc) # ms) a =
     (if availableJobs (h mc) > 0
      then availableJobsLoop h ms (wrapInt (a + availableJobs (h mc)))
      else availableJobsLoop h ms a)"

definition poolAvailableJobs :: "'s mirrorConnections \<Rightarrow> int" where
  "poolAvailableJobs me = availableJobsLoop (conns me) (mirrors me) 0"

text \<open>\<open>func (me *mirrorConnections) maxJobs() int\<close>\<close>

fun maxJobsLoop :: "(nat \<Rightarrow> mirrorConnection) \<Rightarrow> (string \<times> nat) list \<Rightarrow> int \<Rightarrow> int" where
  "maxJobsLoop h [] a = a"
| "maxJobsLoop h ((addr, mc) # ms) a = maxJobsLoop h ms (wrapInt (a + maxJobs (h mc)))"

definition poolMaxJobs :: "'s mirrorConnections \<Rightarrow> int" where
  "poolMaxJobs me = maxJobsLoop (conns me) (mirrors me) 0"

text \<open>\<open>func (me *mirrorConnections) dropConnections()\<close>\<close>

fun closeAll :: "(string \<times> nat) list \<Rightarrow> (nat \<Rightarrow> mirrorConnection) \<Rightarrow> (nat \<Rightarrow> mirrorConnection)" where
  "closeAll [] h = h"
| "closeAll ((addr, mc) # ms) h =
     closeAll ms
       (h(mc := (h mc)\<lparr>rpcClientClosed := True, connectionClosed := True,
                        reverseConnectionClosed := True\<rparr>))"

definition dropConnections :: "'s \<Rightarrow> 's mirrorConnections \<Rightarrow> 's mirrorConnections" where
  "dropConnections newMasterStats me =
     me\<lparr>conns := closeAll (mirrors me) (conns me), mirrors := [], stats := newMasterStats\<rparr>"

text \<open>
  \<open>func (me *mirrorConnections) maybeDropConnections()\<close>; \<open>now\<close> is \<open>time.Nanoseconds()\<close>.
  The sum \<open>me.lastActionNs + int64(me.keepAliveNs)\<close> is a sum of \<open>int64\<close>s: it wraps.
\<close>

definition maybeDropConnections ::
  "'s \<Rightarrow> 64 word \<Rightarrow> 's mirrorConnections \<Rightarrow> 's mirrorConnections" where
  "maybeDropConnections newMasterStats now me =
     (if length (mirrors me) = 0 then me
      else if poolAvailableJobs me < poolMaxJobs me then me
      else if sint (lastActionNs me + keepAliveNs me) > sint now then me
      else dropConnections newMasterStats me)"

text \<open>
  \<open>func (me *mirrorConnections) queueFiles(origin *mirrorConnection, fset FileSet)\<close>:
  pointers are compared, not addresses.
\<close>

fun queueFilesLoop ::
  "nat \<Rightarrow> FileSet \<Rightarrow> (string \<times> nat) list \<Rightarrow> (nat \<Rightarrow> mirrorConnection) \<Rightarrow> (nat \<Rightarrow> mirrorConnection)" where
  "queueFilesLoop origin fset [] h = h"
| "queueFilesLoop origin fset ((addr, w) # ms) h =
     (if origin \<noteq> w
      then queueFilesLoop origin fset ms (h(w := queueFiles fset (h w)))
      else queueFilesLoop origin fset ms h)"

definition poolQueueFiles :: "nat \<Rightarrow> FileSet \<Rightarrow> 's mirrorConnections \<Rightarrow> 's mirrorConnections" where
  "poolQueueFiles origin fset me = me\<lparr>conns := queueFilesLoop origin fset (mirrors me) (conns me)\<rparr>"

text \<open>
  \<open>func (me *mirrorConnections) tryConnect()\<close>.  \<open>create addr wanted\<close> is the outcome of
  \<open>me.master.createMirror(addr, wanted)\<close>: an error, or the fields of a newly allocated
  connection.  The first loop returns the blacklist and the connection made, if any.
\<close>

fun tryConnectLoop ::
  "(string \<Rightarrow> int \<Rightarrow> error + mirrorConnection) \<Rightarrow> int \<Rightarrow> (string \<times> nat) list
    \<Rightarrow> (string \<times> bool) list \<Rightarrow> string list \<Rightarrow> string list \<times> (string \<times> mirrorConnection) option" where
  "tryConnectLoop create wanted ms [] blacklist = (blacklist, None)"
| "tryConnectLoop create wanted ms ((addr, b) # ws) blacklist =
     (if map_of ms addr \<noteq> None then tryConnectLoop create wanted ms ws blacklist
      else
        (case create addr wanted of
           Inl err \<Rightarrow> tryConnectLoop create wanted ms ws (blacklist @ [addr])
         | Inr mc \<Rightarrow> (blacklist, Some (addr, mc))))"

definition tryConnect ::
  "(string \<Rightarrow> int \<Rightarrow> error + mirrorConnection) \<Rightarrow> 's mirrorConnections \<Rightarrow> 's mirrorConnections" where
  "tryConnect create me =
     (let wanted = wrapInt (wantedMaxJobs me - poolMaxJobs me)
      in if wanted \<le> 0 then me
         else
           (case tryConnectLoop create wanted (mirrors me) (workers me) [] of
              (blacklist, None) \<Rightarrow>
                me\<lparr>workers := fold AList.delete blacklist (workers me)\<rparr>
            | (blacklist, Some (addr, mc)) \<Rightarrow>
                me\<lparr>conns := (conns me)(nextConn me := mc\<lparr>workerAddr := addr\<rparr>),
                   nextConn := Suc (nextConn me),
                   mirrors := AList.update addr (nextConn me) (mirrors me),
                   workers := fold AList.delete blacklist (workers me)\<rparr>))"

text \<open>
  \<open>rand.Intn(n)\<close> panics for \<open>n \<le> 0\<close> and otherwise returns a number in \<open>[0, n)\<close>; \<open>r\<close> is
  the generator's raw output.
\<close>

definition Intn :: "nat \<Rightarrow> int \<Rightarrow> int option" where
  "Intn r n = (if n \<le> 0 then None else Some (int r mod n))"

text \<open>The selection loop of \<open>pick\<close>; \<open>None\<close> is \<open>found == nil\<close>.\<close>

fun pickLoop :: "(nat \<Rightarrow> mirrorConnection) \<Rightarrow> int \<Rightarrow> (string \<times> nat) list \<Rightarrow> nat option" where
  "pickLoop h j [] = None"
| "pickLoop h j ((addr, v) # ms) =
     (if j \<le> 0 \<or> availableJobs (h v) > 0 then Some v else pickLoop h (j - 1) ms)"

datatype pick_result =
  Picked nat
| NoWorkers error
| PickPanic

text \<open>
  \<open>func (me *mirrorConnections) pick() (*mirrorConnection, os.Error)\<close>.  A nil dereference
  and \<open>rand.Intn(0)\<close> are the panics of the source.
\<close>

definition pick ::
  "(string \<Rightarrow> coord_reply) \<Rightarrow> (string \<Rightarrow> int \<Rightarrow> error + mirrorConnection) \<Rightarrow> nat
    \<Rightarrow> 's mirrorConnections \<Rightarrow> pick_result \<times> 's mirrorConnections" where
  "pick net create r me0 =
     (let full = (poolAvailableJobs me0 \<le> 0);
          me1 = (if full
                 then tryConnect create
                        (if length (workers me0) = 0
                         then me0\<lparr>workers := fetchWorkers net me0\<rparr> else me0)
                 else me0)
      in if full \<and> poolMaxJobs me1 = 0 then (NoWorkers ''No workers found at all.'', me1)
         else
           (case (if poolAvailableJobs me1 = 0
                  then Intn r (int (length (mirrors me1)))
                  else Some (int (length (mirrors me1)))) of
              None \<Rightarrow> (PickPanic, me1)
            | Some j \<Rightarrow>
                (case pickLoop (conns me1) j (mirrors me1) of
                   None \<Rightarrow> (PickPanic, me1)
                 | Some found \<Rightarrow>
                     (Picked found,
                      me1\<lparr>conns := (conns me1)
                             (found := (conns me1 found)
                                \<lparr>availableJobs := availableJobs (conns me1 found) - 1\<rparr>)\<rparr>))))"

text \<open>\<open>func (me *mirrorConnections) drop(mc *mirrorConnection, err os.Error)\<close>\<close>

definition drop_conn :: "nat \<Rightarrow> error option \<Rightarrow> 's mirrorConnections \<Rightarrow> 's mirrorConnections" where
  "drop_conn mc err me =
     me\<lparr>conns := (conns me)
            (mc := (conns me mc)\<lparr>connectionClosed := True, reverseConnectionClosed := True\<rparr>),
        mirrors := AList.delete (workerAddr (conns me mc)) (mirrors me),
        workers := AList.delete (workerAddr (conns me mc)) (workers me)\<rparr>"

text \<open>\<open>func (me *mirrorConnections) jobDone(mc *mirrorConnection)\<close>\<close>

definition jobDone :: "64 word \<Rightarrow> nat \<Rightarrow> 's mirrorConnections \<Rightarrow> 's mirrorConnections" where
  "jobDone now mc me =
     me\<lparr>lastActionNs := now,
        conns := (conns me)(mc := (conns me mc)\<lparr>availableJobs := availableJobs (conns me mc) + 1\<rparr>)\<rparr>"

subsection \<open>Reachable pool states\<close>

text \<open>
  Modelled from the spec: \<open>Master.createMirror\<close> lies outside the files at hand.  The data
  model gives every connection ``a capacity \<open>maxJobs\<close>, a live counter
  \<open>availableJobs \<le> maxJobs\<close>''; that is what is asked of a newly created connection.
\<close>

definition createOk :: "(string \<Rightarrow> int \<Rightarrow> error + mirrorConnection) \<Rightarrow> bool" where
  "createOk create =
     (\<forall>addr wanted mc. create addr wanted = Inr mc \<longrightarrow> availableJobs mc \<le> maxJobs mc)"

text \<open>
  The states the pool's operations lead to from a new pool.  The second component counts,
  for each connection, the jobs handed out by \<open>pick\<close> and not yet returned: \<open>jobDone\<close> is
  called only for a connection with such a job.  Every call may see another coordinator
  answer, another outcome of \<open>createMirror\<close>, another random number and another time,
  and every \<open>range\<close> over a map may visit it in another order (\<open>reach_range_order\<close>).
\<close>

inductive reachable :: "'s mirrorConnections \<Rightarrow> (nat \<Rightarrow> nat) \<Rightarrow> bool" where
  reach_new: "reachable (newMirrorConnections st ws coord mj) (\<lambda>mc. 0)"
| reach_pick:
    "reachable me out \<Longrightarrow> createOk create \<Longrightarrow> pick net create r me = (Picked mc, me')
      \<Longrightarrow> reachable me' (out(mc := Suc (out mc)))"
| reach_pick_error:
    "reachable me out \<Longrightarrow> createOk create \<Longrightarrow> pick net create r me = (NoWorkers err, me')
      \<Longrightarrow> reachable me' out"
| reach_jobDone:
    "reachable me out \<Longrightarrow> 0 < out mc \<Longrightarrow> reachable (jobDone now mc me) (out(mc := out mc - 1))"
| reach_drop: "reachable me out \<Longrightarrow> reachable (drop_conn mc err me) out"
| reach_tryConnect:
    "reachable me out \<Longrightarrow> createOk create \<Longrightarrow> reachable (tryConnect create me) out"
| reach_setKeepAliveNs: "reachable me out \<Longrightarrow> reachable (setKeepAliveNs keepAlive period me) out"
| reach_dropConnections: "reachable me out \<Longrightarrow> reachable (dropConnections st me) out"
| reach_maybeDropConnections:
    "reachable me out \<Longrightarrow> reachable (maybeDropConnections st now me) out"
| reach_refreshWorkers: "reachable me out \<Longrightarrow> reachable (refreshWorkers net me) out"
| reach_queueFiles: "reachable me out \<Longrightarrow> reachable (poolQueueFiles origin fset me) out"
| reach_sendFiles:
    "reachable me out
      \<Longrightarrow> reachable (me\<lparr>conns := (conns me)(mc := snd (snd (sendFiles call (conns me mc))))\<rparr>) out"
| reach_range_order:
    "reachable me out \<Longrightarrow> mset ms = mset (mirrors me) \<Longrightarrow> mset ws = mset (workers me)
      \<Longrightarrow> reachable (me\<lparr>mirrors := ms, workers := ws\<rparr>) out"


definition sumMaxJobs :: "'s mirrorConnections \<Rightarrow> int" where
  "sumMaxJobs me = (\<Sum>(addr, mc)\<leftarrow>mirrors me. maxJobs (conns me mc))"


text \<open>
  What every reachable state satisfies: each connection's free slots and handed-out jobs
  together stay within its capacity, no job is counted for an unallocated pointer, the
  open mirrors are allocated, and no connection is open under two addresses.
\<close>

definition poolInv :: "'s mirrorConnections \<Rightarrow> (nat \<Rightarrow> nat) \<Rightarrow> bool" where
  "poolInv me out \<longleftrightarrow>
     (\<forall>mc. availableJobs (conns me mc) + int (out mc) \<le> maxJobs (conns me mc))
     \<and> (\<forall>mc. nextConn me \<le> mc \<longrightarrow> out mc = 0)
     \<and> (\<forall>mc \<in> snd ` set (mirrors me). mc < nextConn me)
     \<and> distinct (map snd (mirrors me))
     \<and> distinct (map fst (mirrors me))"

section \<open>Outcomes of operations that may not return\<close>

text \<open>
  An operation returns a value (\<open>Done\<close>), panics (\<open>Panic\<close>: a send on a closed channel, the
  close of a closed channel, \<open>log.Panic\<close>), ends the process (\<open>Fatal\<close>: \<open>log.Fatal\<close>), or
  parks its goroutine on a channel that no step of the operation itself can make ready
  (\<open>Blocked\<close>).
\<close>

datatype 'a outcome =
  Done 'a
| Panic
| Fatal
| Blocked

fun andThen :: "'a outcome \<Rightarrow> ('a \<Rightarrow> 'b outcome) \<Rightarrow> 'b outcome" where
  "andThen (Done x) f = f x"
| "andThen Panic f = Panic"
| "andThen Fatal f = Fatal"
| "andThen Blocked f = Blocked"

section \<open>File-set waiter\<close>

text \<open>
  A Go channel of \<open>int\<close>: the values buffered in it, oldest first, its capacity, and whether
  it has been closed.
\<close>

record chan =
  buf :: "int list"
  cap :: nat
  closed :: bool

text \<open>\<open>ch <- v\<close>: a send on a closed channel panics; a send on a full channel waits.\<close>

definition chan_send :: "int \<Rightarrow> chan \<Rightarrow> chan outcome" where
  "chan_send v c =
     (if closed c then Panic
      else if length (buf c) < cap c then Done (c\<lparr>buf := buf c @ [v]\<rparr>)
      else Blocked)"

text \<open>\<open>close(ch)\<close>: the close of a closed channel panics.\<close>

definition chan_close :: "chan \<Rightarrow> chan outcome" where
  "chan_close c = (if closed c then Panic else Done (c\<lparr>closed := True\<rparr>))"

text \<open>
  \<open>type fileSetWaiter struct\<close>.  \<open>channels\<close> is the map \<open>map[chan int]bool\<close>, keyed by
  channel pointer; \<open>chans\<close> is the store of the channel objects and \<open>nextChan\<close> the next
  unused pointer.  The master and the mirror the waiter belongs to enter \<open>wait\<close> as
  arguments.
\<close>

record fileSetWaiter =
  channels :: "(nat \<times> bool) list"
  chans :: "nat \<Rightarrow> chan"
  nextChan :: nat

text \<open>\<open>func newFileSetWaiter(master *Master, mc *mirrorConnection) *fileSetWaiter\<close>\<close>

definition newFileSetWaiter :: fileSetWaiter where
  "newFileSetWaiter =
     \<lparr>channels = [], chans = (\<lambda>ch. \<lparr>buf = [], cap = 0, closed = False\<rparr>), nextChan = 0\<rparr>"

text \<open>\<open>func (me *fileSetWaiter) broadcast(id int, ignore chan int)\<close>\<close>

fun broadcastLoop ::
  "int \<Rightarrow> nat \<Rightarrow> (nat \<times> bool) list \<Rightarrow> (nat \<Rightarrow> chan) \<Rightarrow> (nat \<Rightarrow> chan) outcome" where
  "broadcastLoop i ignore [] st = Done st"
| "broadcastLoop i ignore ((ch, b) # chs) st =
     (if ch \<noteq> ignore
      then andThen (chan_send i (st ch)) (\<lambda>c. broadcastLoop i ignore chs (st(ch := c)))
      else broadcastLoop i ignore chs st)"

definition broadcast :: "int \<Rightarrow> nat \<Rightarrow> fileSetWaiter \<Rightarrow> fileSetWaiter outcome" where
  "broadcast i ignore me =
     andThen (broadcastLoop i ignore (channels me) (chans me)) (\<lambda>st. Done (me\<lparr>chans := st\<rparr>))"

text \<open>\<open>func (me *fileSetWaiter) getChannel() chan int\<close>: \<open>make(chan int, 10)\<close>.\<close>

definition getChannel :: "fileSetWaiter \<Rightarrow> nat \<times> fileSetWaiter" where
  "getChannel me =
     (nextChan me,
      me\<lparr>chans := (chans me)(nextChan me := \<lparr>buf = [], cap = 10, closed = False\<rparr>),
         nextChan := Suc (nextChan me),
         channels := AList.update (nextChan me) True (channels me)\<rparr>)"

text \<open>\<open>func (me *fileSetWaiter) flush()\<close>\<close>

fun flushLoop :: "(nat \<times> bool) list \<Rightarrow> (nat \<Rightarrow> chan) \<Rightarrow> (nat \<Rightarrow> chan) outcome" where
  "flushLoop [] st = Done st"
| "flushLoop ((ch, b) # chs) st =
     andThen (chan_close (st ch)) (\<lambda>c. flushLoop chs (st(ch := c)))"

definition flush :: "fileSetWaiter \<Rightarrow> fileSetWaiter outcome" where
  "flush me = andThen (flushLoop (channels me) (chans me)) (\<lambda>st. Done (me\<lparr>chans := st\<rparr>))"

text \<open>
  Modelled from the spec: \<open>WorkResponse\<close> is declared outside the files at hand; \<open>wait\<close>
  reads its \<open>FileSetId\<close> and its \<open>FileSet\<close>, a pointer that may be \<open>nil\<close>.
\<close>

record WorkResponse =
  FileSetId :: int
  FileSet :: "FileSet option"

text \<open>
  The receive loop of \<open>wait\<close> on the buffered values and the closed flag of the completion
  channel: \<open>c, ok := <-completion\<close> takes the oldest buffered value; on an empty buffer it
  yields \<open>ok = false\<close> if the channel is closed and waits otherwise.  The result tells
  whether the id was received (\<open>True\<close>) or the channel found closed (\<open>False\<close>), with the
  values left in the buffer.
\<close>

fun recvLoop :: "int \<Rightarrow> int list \<Rightarrow> bool \<Rightarrow> (bool \<times> int list) outcome" where
  "recvLoop i [] cl = (if cl then Done (False, []) else Blocked)"
| "recvLoop i (c # cs) cl = (if c = i then Done (True, cs) else recvLoop i cs cl)"

text \<open>The last three lines of \<open>wait\<close>: \<open>me.channels[completion] = false, false\<close>.\<close>

definition unregister :: "nat \<Rightarrow> fileSetWaiter \<Rightarrow> fileSetWaiter" where
  "unregister completion me = me\<lparr>channels := AList.delete completion (channels me)\<rparr>"

text \<open>
  \<open>func (me *fileSetWaiter) wait(rep *WorkResponse, completion chan int) (err os.Error)\<close>.
  The master is opaque here: \<open>replayFileModifications\<close>, \<open>updateFiles\<close> and \<open>queueFilesM\<close>
  are \<open>me.master.replayFileModifications(me.mirror.rpcClient, _)\<close>,
  \<open>me.master.fileServer.updateFiles\<close> and \<open>me.master.mirrors.queueFiles(me.mirror, _)\<close>
  as functions on the master's state.
\<close>

definition wait ::
  "(FileAttr list \<Rightarrow> 'm \<Rightarrow> error option \<times> 'm) \<Rightarrow> (FileAttr list \<Rightarrow> 'm \<Rightarrow> 'm)
    \<Rightarrow> (FileAttr list \<Rightarrow> 'm \<Rightarrow> 'm) \<Rightarrow> WorkResponse \<Rightarrow> nat \<Rightarrow> fileSetWaiter \<Rightarrow> 'm
    \<Rightarrow> (error option \<times> fileSetWaiter \<times> 'm) outcome" where
  "wait replayFileModifications updateFiles queueFilesM rep completion me m =
     (case FileSet rep of
        Some fs \<Rightarrow>
          (case replayFileModifications (Files fs) m of
             (None, m1) \<Rightarrow>
               andThen (broadcast (FileSetId rep) completion me)
                 (\<lambda>me1. Done (None, unregister completion me1,
                                queueFilesM (Files fs) (updateFiles (Files fs) m1)))
           | (Some err, m1) \<Rightarrow>
               andThen (flush me) (\<lambda>me1. Done (Some err, unregister completion me1, m1)))
      | None \<Rightarrow>
          andThen
            (recvLoop (FileSetId rep) (buf (chans me completion)) (closed (chans me completion)))
            (\<lambda>(found, rest).
               if \<not> found
               then Done (Some ''files were never sent.'',
                          me\<lparr>chans := (chans me)(completion := (chans me completion)\<lparr>buf := rest\<rparr>)\<rparr>,
                          m)
               else Done (None,
                          unregister completion
                            (me\<lparr>chans := (chans me)(completion := (chans me completion)\<lparr>buf := rest\<rparr>)\<rparr>),
                          m)))"

section \<open>Content cache\<close>

text \<open>
  The operating system and the LRU cache (declared outside the files at hand) as seen by
  the cache: whether \<open>ioutil.TempFile\<close> succeeds; what \<open>dest.Write(p)\<close> returns on a
  temporary file that holds the given bytes (the number of bytes written, at most the
  length of \<open>p\<close>, and the error); what \<open>dest.Close()\<close> returns; whether the \<open>os.MkdirAll\<close>
  of \<open>HashPath\<close> and \<open>os.Rename\<close> succeed; and \<open>LruCache.Add\<close>.
\<close>

record 'l sys =
  tempFile :: bool
  fileWrite :: "byte list \<Rightarrow> byte list \<Rightarrow> nat \<times> error option"
  fileClose :: "error option"
  mkdirAllOk :: bool
  renameOk :: bool
  lruAdd :: "string \<Rightarrow> byte list \<Rightarrow> 'l \<Rightarrow> 'l"

text \<open>A system on which no file operation fails.\<close>

definition sysOk :: "'l sys \<Rightarrow> bool" where
  "sysOk sys \<longleftrightarrow>
     tempFile sys \<and> (\<forall>f p. fileWrite sys f p = (length p, None)) \<and> fileClose sys = None
     \<and> mkdirAllOk sys \<and> renameOk sys"

text \<open>
  \<open>type ContentCache struct\<close>, as far as saving and fetching touch it: the map \<open>have\<close> (a
  set: the keys with value \<open>true\<close>), the in-memory cache (which may be \<open>nil\<close>), and the
  files of the cache directory, by digest (\<open>HashPath(dir, sum)\<close>).
\<close>

record 'l ContentCache =
  haveHash :: "string set"
  inMemoryCache :: "'l option"
  blobs :: "string \<rightharpoonup> byte list"

text \<open>\<open>func (me *ContentCache) HasHash(hash string) bool\<close>\<close>

definition HasHash :: "'l ContentCache \<Rightarrow> string \<Rightarrow> bool" where
  "HasHash me hash \<longleftrightarrow> hash \<in> haveHash me"

text \<open>
  \<open>type HashWriter struct\<close>: the bytes written to the hasher and to the temporary file.
  A \<open>hash.Hash\<close> yields the digest of all bytes written to it so far; the hash function
  of the store (\<open>hashFunc\<close>, MD5) is the argument \<open>H\<close> of everything below.
\<close>

record HashWriter =
  hasher :: "byte list"
  dest :: "byte list"

text \<open>\<open>func NewHashWriter(dir string, hashfunc crypto.Hash) *HashWriter\<close>\<close>

definition NewHashWriter :: "'l sys \<Rightarrow> HashWriter outcome" where
  "NewHashWriter sys = (if tempFile sys then Done \<lparr>hasher = [], dest = []\<rparr> else Panic)"

text \<open>\<open>func (me *HashWriter) Sum() string\<close>\<close>

definition Sum :: "(byte list \<Rightarrow> string) \<Rightarrow> HashWriter \<Rightarrow> string" where
  "Sum H me = H (hasher me)"

text \<open>\<open>func (me *HashWriter) Write(p []byte) (n int, err error)\<close>\<close>

definition Write :: "'l sys \<Rightarrow> HashWriter \<Rightarrow> byte list \<Rightarrow> nat \<times> error option \<times> HashWriter" where
  "Write sys me p =
     (let (n, err) = fileWrite sys (dest me) p
      in (n, err, me\<lparr>dest := dest me @ take n p, hasher := hasher me @ take n p\<rparr>))"

text \<open>
  \<open>func (me *HashWriter) Close() error\<close>: a failed \<open>MkdirAll\<close> in \<open>HashPath\<close> and a failed
  rename are \<open>log.Fatal\<close>; otherwise the temporary file becomes the file of its digest.
\<close>

definition Close ::
  "'l sys \<Rightarrow> (byte list \<Rightarrow> string) \<Rightarrow> HashWriter \<Rightarrow> (string \<rightharpoonup> byte list)
    \<Rightarrow> (error option \<times> (string \<rightharpoonup> byte list)) outcome" where
  "Close sys H me files =
     (case fileClose sys of
        Some err \<Rightarrow> Done (Some err, files)
      | None \<Rightarrow>
          if \<not> mkdirAllOk sys then Fatal
          else if renameOk sys then Done (None, files(Sum H me \<mapsto> dest me))
          else Fatal)"

text \<open>\<open>func (me *HashWriter) WriteClose(p []byte) (err error)\<close>\<close>

definition WriteClose ::
  "'l sys \<Rightarrow> (byte list \<Rightarrow> string) \<Rightarrow> HashWriter \<Rightarrow> byte list \<Rightarrow> (string \<rightharpoonup> byte list)
    \<Rightarrow> (error option \<times> HashWriter \<times> (string \<rightharpoonup> byte list)) outcome" where
  "WriteClose sys H me p files =
     (case Write sys me p of
        (n, Some err, me1) \<Rightarrow> Done (Some err, me1, files)
      | (n, None, me1) \<Rightarrow>
          andThen (Close sys H me1 files) (\<lambda>(err, files1). Done (err, me1, files1)))"

text \<open>\<open>const _BUFSIZE = 32 * 1024\<close>, \<open>const _MEMORY_LIMIT = 128 * 1024\<close>\<close>

definition BUFSIZE :: nat where
  "BUFSIZE = 32 * 1024"

definition MEMORY_LIMIT :: int where
  "MEMORY_LIMIT = 128 * 1024"

text \<open>
  \<open>io.CopyN(me, input, size)\<close> of the Go library, with the \<open>HashWriter\<close> as destination: it
  reads the input in pieces of at most 32 KiB and writes each piece, until \<open>size\<close> bytes
  are copied; it stops with an error at a failed or short write, and with \<open>EOF\<close> when the
  input ends early.  The reader is the list of bytes it delivers.
\<close>

function CopyN :: "'l sys \<Rightarrow> HashWriter \<Rightarrow> byte list \<Rightarrow> nat \<Rightarrow> error option \<times> HashWriter" where
  "CopyN sys me input n =
     (if n = 0 then (None, me)
      else if input = [] then (Some ''EOF'', me)
      else if fst (snd (Write sys me (take (min BUFSIZE n) input))) \<noteq> None
      then (fst (snd (Write sys me (take (min BUFSIZE n) input))),
            snd (snd (Write sys me (take (min BUFSIZE n) input))))
      else if fst (Write sys me (take (min BUFSIZE n) input)) \<noteq> length (take (min BUFSIZE n) input)
      then (Some ''short write'', snd (snd (Write sys me (take (min BUFSIZE n) input))))
      else CopyN sys (snd (snd (Write sys me (take (min BUFSIZE n) input))))
             (drop (length (take (min BUFSIZE n) input)) input)
             (n - length (take (min BUFSIZE n) input)))"
  by pat_completeness auto
termination
  by (relation "measure (\<lambda>(sys, me, input, n). n)") (auto simp: BUFSIZE_def min_def)

text \<open>\<open>func (me *HashWriter) CopyClose(input io.Reader, size int64) error\<close>\<close>

definition CopyClose ::
  "'l sys \<Rightarrow> (byte list \<Rightarrow> string) \<Rightarrow> HashWriter \<Rightarrow> byte list \<Rightarrow> int \<Rightarrow> (string \<rightharpoonup> byte list)
    \<Rightarrow> (error option \<times> HashWriter \<times> (string \<rightharpoonup> byte list)) outcome" where
  "CopyClose sys H me input sz files =
     (case CopyN sys me input (nat sz) of
        (Some err, me1) \<Rightarrow> Done (Some err, me1, files)
      | (None, me1) \<Rightarrow>
          andThen (Close sys H me1 files) (\<lambda>(err, files1). Done (err, me1, files1)))"

text \<open>\<open>func (me *ContentCache) saveViaMemory(content []byte) (hash string)\<close>\<close>

definition saveViaMemory ::
  "'l sys \<Rightarrow> (byte list \<Rightarrow> string) \<Rightarrow> byte list \<Rightarrow> 'l ContentCache
    \<Rightarrow> (string \<times> 'l ContentCache) outcome" where
  "saveViaMemory sys H content me =
     andThen (NewHashWriter sys)
       (\<lambda>writer.
          andThen (WriteClose sys H writer content (blobs me))
            (\<lambda>(err, writer1, files1).
               if err \<noteq> None then Done ([], me)
               else Done (Sum H writer1,
                          me\<lparr>blobs := files1,
                             haveHash := insert (Sum H writer1) (haveHash me),
                             inMemoryCache :=
                               map_option (lruAdd sys (Sum H writer1) content) (inMemoryCache me)\<rparr>)))"

text \<open>\<open>func (me *ContentCache) Save(content []byte) (hash string)\<close>\<close>

definition Save ::
  "'l sys \<Rightarrow> (byte list \<Rightarrow> string) \<Rightarrow> byte list \<Rightarrow> 'l ContentCache
    \<Rightarrow> (string \<times> 'l ContentCache) outcome" where
  "Save sys H content me = saveViaMemory sys H content me"

text \<open>
  \<open>func (me *ContentCache) SaveStream(input io.Reader, size int64) (hash string)\<close>;
  \<open>ioutil.ReadAll\<close> yields all the bytes the reader delivers.
\<close>

definition SaveStream ::
  "'l sys \<Rightarrow> (byte list \<Rightarrow> string) \<Rightarrow> byte list \<Rightarrow> int \<Rightarrow> 'l ContentCache
    \<Rightarrow> (string \<times> 'l ContentCache) outcome" where
  "SaveStream sys H input sz me =
     (if sz < MEMORY_LIMIT
      then (if int (length input) \<noteq> sz then Panic else saveViaMemory sys H input me)
      else
        andThen (NewHashWriter sys)
          (\<lambda>dup.
             andThen (CopyClose sys H dup input sz (blobs me))
               (\<lambda>(err, dup1, files1).
                  if err \<noteq> None then Done ([], me)
                  else Done (Sum H dup1,
                             me\<lparr>blobs := files1,
                                haveHash := insert (Sum H dup1) (haveHash me)\<rparr>))))"

text \<open>
  Modelled from the spec: \<open>ContentRequest\<close> is declared outside the files at hand; it
  carries the digest and the byte range.  A fetcher answers a request with an error or
  with the chunk of the response.
\<close>

record ContentRequest =
  ReqHash :: string
  Start :: int
  End :: int

text \<open>What \<open>FetchFromServer\<close> does towards the peer and the store, in order.\<close>

datatype fetch_event =
  Requested ContentRequest
| SaveCalled "byte list"

definition chunkSize :: int where
  "chunkSize = 2 ^ 18"

text \<open>
  The code after the loop of \<open>FetchFromServer\<close>: the result of \<open>output.Close()\<close> is
  dropped, the digest is compared, and the digest is marked as present.
\<close>

definition fetchFinish ::
  "'l sys \<Rightarrow> (byte list \<Rightarrow> string) \<Rightarrow> string \<Rightarrow> HashWriter \<Rightarrow> 'l ContentCache
    \<Rightarrow> (error option \<times> 'l ContentCache) outcome" where
  "fetchFinish sys H hash output me =
     andThen (Close sys H output (blobs me))
       (\<lambda>(err, files1).
          if H (hasher output) \<noteq> hash then Fatal
          else Done (None, me\<lparr>blobs := files1,
                               haveHash := insert (H (hasher output)) (haveHash me)\<rparr>))"

text \<open>
  The loop of \<open>FetchFromServer\<close>.  A peer that keeps answering with full chunks keeps the
  loop running, so the loop takes fuel: \<open>None\<close> means that the fuel did not suffice.
\<close>

fun fetchLoop ::
  "nat \<Rightarrow> 'l sys \<Rightarrow> (byte list \<Rightarrow> string) \<Rightarrow> (ContentRequest \<Rightarrow> error + byte list) \<Rightarrow> string
    \<Rightarrow> HashWriter option \<Rightarrow> int \<Rightarrow> 'l ContentCache
    \<Rightarrow> (fetch_event list \<times> (error option \<times> 'l ContentCache) outcome) option" where
  "fetchLoop 0 sys H fetcher hash output written me = None"
| "fetchLoop (Suc fuel) sys H fetcher hash output written me =
     (case fetcher \<lparr>ReqHash = hash, Start = written, End = written + chunkSize\<rparr> of
        Inl err \<Rightarrow>
          Some ([Requested \<lparr>ReqHash = hash, Start = written, End = written + chunkSize\<rparr>],
                Done (Some err, me))
      | Inr chunk \<Rightarrow>
          if int (length chunk) < chunkSize \<and> written = 0
          then Some ([Requested \<lparr>ReqHash = hash, Start = written, End = written + chunkSize\<rparr>,
                      SaveCalled chunk],
                     andThen (Save sys H chunk me)
                       (\<lambda>(saved, me1). if saved \<noteq> hash then Fatal else Done (None, me1)))
          else
            (case (case output of None \<Rightarrow> NewHashWriter sys | Some w \<Rightarrow> Done w) of
               Done w \<Rightarrow>
                 (case Write sys w chunk of
                    (n, Some err, w1) \<Rightarrow>
                      Some ([Requested \<lparr>ReqHash = hash, Start = written, End = written + chunkSize\<rparr>],
                            Done (Some err, me))
                  | (n, None, w1) \<Rightarrow>
                      if int (length chunk) < chunkSize
                      then Some ([Requested \<lparr>ReqHash = hash, Start = written, End = written + chunkSize\<rparr>],
                                 fetchFinish sys H hash w1 me)
                      else map_option
                             (\<lambda>(evs, r).
                                (Requested \<lparr>ReqHash = hash, Start = written, End = written + chunkSize\<rparr>
                                   # evs, r))
                             (fetchLoop fuel sys H fetcher hash (Some w1) (written + int n) me))
             | Panic \<Rightarrow>
                 Some ([Requested \<lparr>ReqHash = hash, Start = written, End = written + chunkSize\<rparr>],
                       Panic)
             | Fatal \<Rightarrow>
                 Some ([Requested \<lparr>ReqHash = hash, Start = written, End = written + chunkSize\<rparr>],
                       Fatal)
             | Blocked \<Rightarrow>
                 Some ([Requested \<lparr>ReqHash = hash, Start = written, End = written + chunkSize\<rparr>],
                       Blocked)))"

text \<open>\<open>func (me *ContentCache) FetchFromServer(fetcher func(...) error, hash string) error\<close>\<close>

definition FetchFromServer ::
  "nat \<Rightarrow> 'l sys \<Rightarrow> (byte list \<Rightarrow> string) \<Rightarrow> (ContentRequest \<Rightarrow> error + byte list) \<Rightarrow> string
    \<Rightarrow> 'l ContentCache \<Rightarrow> (fetch_event list \<times> (error option \<times> 'l ContentCache) outcome) option" where
  "FetchFromServer fuel sys H fetcher hash me =
     (if HasHash me hash then Some ([], Done (None, me))
      else fetchLoop fuel sys H fetcher hash None 0 me)"

section \<open>Replay of a file set from a mirror\<close>

text \<open>
  The master as \<open>mirrorConnection.replay\<close> touches it: its content cache, its writable
  root (together with whatever else \<open>Master.replay\<close> updates), and its mirror pool
  (\<open>me.master.mirrors\<close>).
\<close>

record ('c, 'r, 's) Master =
  cache :: 'c
  writableRoot :: 'r
  mirrorPool :: "'s mirrorConnections"

text \<open>What \<open>replay\<close> does, in order.\<close>

datatype replay_event =
  Fetched string
| Replayed FileSet
| Queued FileSet

text \<open>
  The loop of \<open>replay\<close>.  \<open>fetch h c\<close> is
  \<open>FetchBetweenContentServers(me.rpcClient, "Mirror.FileContent", h, me.master.cache)\<close>,
  which lies outside the files at hand: the error it returns and the cache it leaves.
\<close>

fun replayFetch ::
  "(string \<Rightarrow> 'c \<Rightarrow> error option \<times> 'c) \<Rightarrow> FileAttr list \<Rightarrow> 'c
    \<Rightarrow> error option \<times> replay_event list \<times> 'c" where
  "replayFetch fetch [] c = (None, [], c)"
| "replayFetch fetch (info # infos) c =
     (if Hash info \<noteq> []
      then
        (case fetch (Hash info) c of
           (Some err, c1) \<Rightarrow> (Some err, [Fetched (Hash info)], c1)
         | (None, c1) \<Rightarrow>
             (case replayFetch fetch infos c1 of
                (err, evs, c2) \<Rightarrow> (err, Fetched (Hash info) # evs, c2)))
      else replayFetch fetch infos c)"

text \<open>
  \<open>func (me *mirrorConnection) replay(fset FileSet) os.Error\<close>, for the connection at
  pointer \<open>me\<close>; \<open>masterReplay\<close> is \<open>me.master.replay\<close>, outside the files at hand.
\<close>

definition replay ::
  "(string \<Rightarrow> 'c \<Rightarrow> error option \<times> 'c) \<Rightarrow> (FileSet \<Rightarrow> 'r \<Rightarrow> 'r) \<Rightarrow> nat \<Rightarrow> FileSet
    \<Rightarrow> ('c, 'r, 's) Master \<Rightarrow> error option \<times> replay_event list \<times> ('c, 'r, 's) Master" where
  "replay fetch masterReplay me fset m =
     (case replayFetch fetch (Files fset) (cache m) of
        (Some err, evs, c1) \<Rightarrow> (Some err, evs, m\<lparr>cache := c1\<rparr>)
      | (None, evs, c1) \<Rightarrow>
          (None, evs @ [Replayed fset, Queued fset],
           m\<lparr>cache := c1,
             writableRoot := masterReplay fset (writableRoot m),
             mirrorPool := poolQueueFiles me fset (mirrorPool m)\<rparr>))"

section \<open>Properties of the mirror connection\<close>

text \<open>
  Claim C4.  \<open>sendFiles\<close> on a connection with an empty pending queue returns \<open>nil\<close> and
  issues no RPC.  With a non-empty queue it issues exactly one \<open>Mirror.Update\<close> RPC whose
  payload is exactly the queue; when the RPC succeeds the queue is cleared and \<open>nil\<close> is
  returned; when the RPC fails its error is returned and the connection, its queue
  included, is as before.
\<close>

theorem sendFiles_contract:
  "(pendingChanges me = [] \<longrightarrow> sendFiles call me = (None, [], me))
   \<and> (pendingChanges me \<noteq> [] \<and> call ''Mirror.Update'' (pendingChanges me) = None \<longrightarrow>
        sendFiles call me =
          (None, [(''Mirror.Update'', pendingChanges me)], me\<lparr>pendingChanges := []\<rparr>))
   \<and> (\<forall>err. pendingChanges me \<noteq> [] \<and> call ''Mirror.Update'' (pendingChanges me) = Some err \<longrightarrow>
        sendFiles call me = (Some err, [(''Mirror.Update'', pendingChanges me)], me))"
  by (simp add: sendFiles_def)

theorem sendFiles_contract_witness:
  "sendFiles (\<lambda>m fs. None) blankConnection = (None, [], blankConnection)
   \<and> sendFiles (\<lambda>m fs. None) (blankConnection\<lparr>pendingChanges := [\<lparr>Path = ''a.o'', Hash = ''d1''\<rparr>]\<rparr>)
       = (None, [(''Mirror.Update'', [\<lparr>Path = ''a.o'', Hash = ''d1''\<rparr>])],
          blankConnection\<lparr>pendingChanges := []\<rparr>)
   \<and> sendFiles (\<lambda>m fs. Some ''broken pipe'')
         (blankConnection\<lparr>pendingChanges := [\<lparr>Path = ''a.o'', Hash = ''d1''\<rparr>]\<rparr>)
       = (Some ''broken pipe'', [(''Mirror.Update'', [\<lparr>Path = ''a.o'', Hash = ''d1''\<rparr>])],
          blankConnection\<lparr>pendingChanges := [\<lparr>Path = ''a.o'', Hash = ''d1''\<rparr>]\<rparr>)"
  using sendFiles_contract [of blankConnection "\<lambda>m fs. None"]
    sendFiles_contract [of "blankConnection\<lparr>pendingChanges := [\<lparr>Path = ''a.o'', Hash = ''d1''\<rparr>]\<rparr>"
      "\<lambda>m fs. None"]
    sendFiles_contract [of "blankConnection\<lparr>pendingChanges := [\<lparr>Path = ''a.o'', Hash = ''d1''\<rparr>]\<rparr>"
      "\<lambda>m fs. Some ''broken pipe''"]
  by (simp add: blankConnection_def)

section \<open>Properties of the file-set waiter\<close>

lemma andThen_Done_iff: "andThen x f = Done y \<longleftrightarrow> (\<exists>v. x = Done v \<and> f v = Done y)"
  by (cases x) auto

lemma broadcastLoop_delivers:
  assumes "distinct (map fst chs)"
    and "\<forall>ch \<in> fst ` set chs. ch \<noteq> p \<longrightarrow> \<not> closed (st ch) \<and> length (buf (st ch)) < cap (st ch)"
  shows "broadcastLoop i p chs st =
           Done (\<lambda>ch. if ch \<in> fst ` set chs \<and> ch \<noteq> p then (st ch)\<lparr>buf := buf (st ch) @ [i]\<rparr> else st ch)"
  using assms
proof (induction chs arbitrary: st)
  case Nil
  then show ?case by simp
next
  case (Cons x chs)
  obtain ch b where x: "x = (ch, b)" by (cases x)
  from Cons.prems x have d: "distinct (map fst chs)" and notin: "ch \<notin> fst ` set chs" by auto
  show ?case
  proof (cases "ch = p")
    case True
    from Cons.prems(2) x have h: "\<forall>c \<in> fst ` set chs. c \<noteq> p \<longrightarrow> \<not> closed (st c) \<and> length (buf (st c)) < cap (st c)"
      by auto
    from Cons.IH [OF d h] True x show ?thesis by (auto intro!: ext)
  next
    case False
    let ?st = "st(ch := (st ch)\<lparr>buf := buf (st ch) @ [i]\<rparr>)"
    from Cons.prems(2) x False have ok: "\<not> closed (st ch)" "length (buf (st ch)) < cap (st ch)"
      by auto
    then have send: "chan_send i (st ch) = Done ((st ch)\<lparr>buf := buf (st ch) @ [i]\<rparr>)"
      by (simp add: chan_send_def)
    from Cons.prems(2) x notin
    have h: "\<forall>c \<in> fst ` set chs. c \<noteq> p \<longrightarrow> \<not> closed (?st c) \<and> length (buf (?st c)) < cap (?st c)"
      by auto
    have "broadcastLoop i p chs ?st =
            Done (\<lambda>c. if c \<in> fst ` set chs \<and> c \<noteq> p then (?st c)\<lparr>buf := buf (?st c) @ [i]\<rparr> else ?st c)"
      by (rule Cons.IH [OF d h])
    with send False x notin show ?thesis by (auto intro!: ext)
  qed
qed

text \<open>
  Three jobs are in flight on a mirror, with the channels 0, 1 and 2.  The job of channel
  2 returns a file set whose replay fails: \<open>wait\<close> flushes the waiter, which closes all
  three channels, and unregisters channel 2.  The channels 0 and 1 stay registered, closed.
\<close>

lemma example_three_channels:
  "snd (getChannel (snd (getChannel (snd (getChannel newFileSetWaiter))))) =
     \<lparr>channels = [(0, True), (Suc 0, True), (2, True)],
      chans = (\<lambda>ch. \<lparr>buf = [], cap = 0, closed = False\<rparr>)
        (0 := \<lparr>buf = [], cap = 10, closed = False\<rparr>, Suc 0 := \<lparr>buf = [], cap = 10, closed = False\<rparr>,
         2 := \<lparr>buf = [], cap = 10, closed = False\<rparr>),
      nextChan = 3\<rparr>"
  by (simp add: getChannel_def newFileSetWaiter_def numeral_2_eq_2 numeral_3_eq_3)

lemma example_failed_replay:
  "wait (\<lambda>fs m. (Some ''replay failed'', m)) (\<lambda>fs m. m) (\<lambda>fs m. m)
     \<lparr>FileSetId = 5, FileSet = Some \<lparr>Files = []\<rparr>\<rparr> 2
     (snd (getChannel (snd (getChannel (snd (getChannel newFileSetWaiter)))))) ()
   = Done (Some ''replay failed'',
       \<lparr>channels = [(0, True), (Suc 0, True)],
        chans = (\<lambda>ch. \<lparr>buf = [], cap = 0, closed = False\<rparr>)
          (0 := \<lparr>buf = [], cap = 10, closed = True\<rparr>, Suc 0 := \<lparr>buf = [], cap = 10, closed = True\<rparr>,
           2 := \<lparr>buf = [], cap = 10, closed = True\<rparr>),
        nextChan = 3\<rparr>, ())"
  by (simp add: example_three_channels wait_def flush_def chan_close_def unregister_def)

lemma example_two_channels:
  "snd (getChannel (snd (getChannel newFileSetWaiter))) =
     \<lparr>channels = [(0, True), (Suc 0, True)],
      chans = (\<lambda>ch. \<lparr>buf = [], cap = 0, closed = False\<rparr>)
        (0 := \<lparr>buf = [], cap = 10, closed = False\<rparr>, Suc 0 := \<lparr>buf = [], cap = 10, closed = False\<rparr>),
      nextChan = Suc (Suc 0)\<rparr>"
  by (simp add: getChannel_def newFileSetWaiter_def)

text \<open>
  Claim C2, as stated, fails: for every id \<open>i\<close> and producer channel \<open>p\<close>, every registered
  channel other than \<open>p\<close> would receive exactly one \<open>i\<close>.  In the state the failed replay
  above leaves behind, the job of channel 1 broadcasts the id 7: the send on the closed
  channel 0 panics, and channel 0, registered and different from the producer's, receives
  nothing.
\<close>

theorem broadcast_closed_channel_counterexample:
  "wait (\<lambda>fs m. (Some ''replay failed'', m)) (\<lambda>fs m. m) (\<lambda>fs m. m)
     \<lparr>FileSetId = 5, FileSet = Some \<lparr>Files = []\<rparr>\<rparr> 2
     (snd (getChannel (snd (getChannel (snd (getChannel newFileSetWaiter)))))) ()
   = Done (Some ''replay failed'',
       \<lparr>channels = [(0, True), (Suc 0, True)],
        chans = (\<lambda>ch. \<lparr>buf = [], cap = 0, closed = False\<rparr>)
          (0 := \<lparr>buf = [], cap = 10, closed = True\<rparr>, Suc 0 := \<lparr>buf = [], cap = 10, closed = True\<rparr>,
           2 := \<lparr>buf = [], cap = 10, closed = True\<rparr>),
        nextChan = 3\<rparr>, ())
   \<and> broadcast 7 (Suc 0)
       \<lparr>channels = [(0, True), (Suc 0, True)],
        chans = (\<lambda>ch. \<lparr>buf = [], cap = 0, closed = False\<rparr>)
          (0 := \<lparr>buf = [], cap = 10, closed = True\<rparr>, Suc 0 := \<lparr>buf = [], cap = 10, closed = True\<rparr>,
           2 := \<lparr>buf = [], cap = 10, closed = True\<rparr>),
        nextChan = 3\<rparr> = Panic"
  apply (rule conjI)
   apply (rule example_failed_replay)
  apply (simp add: broadcast_def chan_send_def)
  done

text \<open>A registered channel whose buffer is full makes \<open>broadcast\<close> wait instead.\<close>

lemma broadcast_full_channel_blocks:
  "broadcast 11 (Suc 0)
     \<lparr>channels = [(0, True), (Suc 0, True)],
      chans = (\<lambda>ch. \<lparr>buf = [], cap = 0, closed = False\<rparr>)
        (0 := \<lparr>buf = [1, 2, 3, 4, 5, 6, 7, 8, 9, 10], cap = 10, closed = False\<rparr>,
         Suc 0 := \<lparr>buf = [], cap = 10, closed = False\<rparr>),
      nextChan = Suc (Suc 0)\<rparr> = Blocked"
  by (simp add: broadcast_def chan_send_def)

text \<open>
  Claim C2, amended.  When every registered channel other than the producer's channel \<open>p\<close>
  is open and has room in its buffer, \<open>broadcast(i, p)\<close> returns, every registered
  channel other than \<open>p\<close> has received exactly one value, \<open>i\<close>, appended to its buffer,
  and \<open>p\<close> and every unregistered channel have received nothing; the set of registered
  channels is as before.
\<close>

theorem broadcast_delivers_once:
  assumes "distinct (map fst (channels me))"
    and "\<forall>ch \<in> fst ` set (channels me). ch \<noteq> p \<longrightarrow>
           \<not> closed (chans me ch) \<and> length (buf (chans me ch)) < cap (chans me ch)"
  shows "\<exists>me'. broadcast i p me = Done me'
           \<and> channels me' = channels me
           \<and> (\<forall>ch \<in> fst ` set (channels me). ch \<noteq> p \<longrightarrow>
                 chans me' ch = (chans me ch)\<lparr>buf := buf (chans me ch) @ [i]\<rparr>)
           \<and> chans me' p = chans me p
           \<and> (\<forall>ch. ch \<notin> fst ` set (channels me) \<longrightarrow> chans me' ch = chans me ch)"
  using broadcastLoop_delivers [OF assms, of i]
  by (simp add: broadcast_def)

theorem broadcast_delivers_once_witness:
  "\<exists>me'. broadcast 7 (Suc 0) (snd (getChannel (snd (getChannel newFileSetWaiter)))) = Done me'
      \<and> buf (chans me' 0) = [7] \<and> buf (chans me' (Suc 0)) = []"
  using broadcast_delivers_once [of "snd (getChannel (snd (getChannel newFileSetWaiter)))" "Suc 0" 7]
  by (auto simp: example_two_channels)

lemma broadcast_channels: "broadcast i p me = Done me' \<Longrightarrow> channels me' = channels me"
  by (auto simp: broadcast_def andThen_Done_iff)

lemma flush_channels: "flush me = Done me' \<Longrightarrow> channels me' = channels me"
  by (auto simp: flush_def andThen_Done_iff)

lemma unregister_removes_pair: "(ch, b) \<notin> set (channels (unregister ch me))"
  by (simp add: unregister_def AList.delete_eq)

text \<open>
  On every path but one \<open>wait\<close> unregisters the channel before it returns: the producer's
  paths (replay succeeded or failed) and the observer's path on which the id arrived.
\<close>

lemma wait_unregisters_otherwise:
  assumes "wait replayFileModifications updateFiles queueFilesM rep completion me m = Done (err, me', m')"
    and "FileSet rep \<noteq> None \<or> err = None"
  shows "completion \<notin> fst ` set (channels me')"
  using assms
  by (auto simp: wait_def andThen_Done_iff unregister_removes_pair
      split: option.splits prod.splits if_splits)

text \<open>
  Claim C3 says that the channel is unregistered on every return of \<open>wait\<close>.  The observer
  whose channel was closed returns from inside the receive loop, before the unregistering
  lines: in the state the failed replay above leaves behind, the observing job of channel 0
  gets the error and its channel 0 is still registered.
\<close>

theorem wait_closed_channel_stays_registered:
  "wait (\<lambda>fs m. (None, m)) (\<lambda>fs m. m) (\<lambda>fs m. m) \<lparr>FileSetId = 7, FileSet = None\<rparr> 0
     \<lparr>channels = [(0, True), (Suc 0, True)],
        chans = (\<lambda>ch. \<lparr>buf = [], cap = 0, closed = False\<rparr>)
          (0 := \<lparr>buf = [], cap = 10, closed = True\<rparr>, Suc 0 := \<lparr>buf = [], cap = 10, closed = True\<rparr>,
           2 := \<lparr>buf = [], cap = 10, closed = True\<rparr>),
        nextChan = 3\<rparr> ()
   = Done (Some ''files were never sent.'',
       \<lparr>channels = [(0, True), (Suc 0, True)],
        chans = (\<lambda>ch. \<lparr>buf = [], cap = 0, closed = False\<rparr>)
          (0 := \<lparr>buf = [], cap = 10, closed = True\<rparr>, Suc 0 := \<lparr>buf = [], cap = 10, closed = True\<rparr>,
           2 := \<lparr>buf = [], cap = 10, closed = True\<rparr>),
        nextChan = 3\<rparr>, ())
   \<and> map_of (channels
       \<lparr>channels = [(0, True), (Suc 0, True)],
        chans = (\<lambda>ch. \<lparr>buf = [], cap = 0, closed = False\<rparr>)
          (0 := \<lparr>buf = [], cap = 10, closed = True\<rparr>, Suc 0 := \<lparr>buf = [], cap = 10, closed = True\<rparr>,
           2 := \<lparr>buf = [], cap = 10, closed = True\<rparr>),
        nextChan = 3\<rparr>) 0 = Some True"
  by (auto simp: wait_def intro!: ext)

section \<open>Properties of the content cache\<close>

subsection \<open>Saving on a system without file errors\<close>

declare CopyN.simps [simp del]

lemma Write_ok:
  "sysOk sys \<Longrightarrow> Write sys w p = (length p, None, w\<lparr>dest := dest w @ p, hasher := hasher w @ p\<rparr>)"
  by (simp add: Write_def sysOk_def)

lemma Close_ok:
  "sysOk sys \<Longrightarrow> Close sys H w files = Done (None, files(H (hasher w) \<mapsto> dest w))"
  by (simp add: Close_def sysOk_def Sum_def)

lemma take_chunk_append:
  "n \<le> length input \<Longrightarrow>
     take (min k n) input @ take (n - min k n) (drop (min k n) input) = take n input"
proof -
  have "take (min k n + (n - min k n)) input = take n input" by simp
  then show ?thesis by (simp only: take_add)
qed

lemma CopyN_ok:
  "sysOk sys \<Longrightarrow> n \<le> length input \<Longrightarrow>
     CopyN sys w input n = (None, w\<lparr>dest := dest w @ take n input, hasher := hasher w @ take n input\<rparr>)"
proof (induction sys w input n rule: CopyN.induct)
  case (1 sys me input n)
  show ?case
  proof (cases "n = 0")
    case True
    then show ?thesis by (subst CopyN.simps) simp
  next
    case False
    define p where "p = take (min BUFSIZE n) input"
    define r where "r = take (n - length p) (drop (length p) input)"
    from False "1.prems" have ne: "input \<noteq> []" by auto
    have w: "Write sys me p = (length p, None, me\<lparr>dest := dest me @ p, hasher := hasher me @ p\<rparr>)"
      by (rule Write_ok [OF "1.prems"(1)])
    have len: "length p = min BUFSIZE n" using "1.prems"(2) by (simp add: p_def)
    have le: "n - length p \<le> length (drop (length p) input)" using "1.prems"(2) by simp
    have "CopyN sys (snd (snd (Write sys me p))) (drop (length p) input) (n - length p) =
            (None, (snd (snd (Write sys me p)))
               \<lparr>dest := dest (snd (snd (Write sys me p))) @ r,
                hasher := hasher (snd (snd (Write sys me p))) @ r\<rparr>)"
      unfolding r_def p_def using False ne w [unfolded p_def] "1.prems"
      by (intro "1.IH") (simp_all add: min_def)
    then have ih: "CopyN sys (me\<lparr>dest := dest me @ p, hasher := hasher me @ p\<rparr>)
                     (drop (length p) input) (n - length p) =
            (None, me\<lparr>dest := dest me @ p @ r, hasher := hasher me @ p @ r\<rparr>)"
      by (simp add: w)
    have cat: "p @ r = take n input"
      unfolding r_def len unfolding p_def by (rule take_chunk_append [OF "1.prems"(2)])
    have "CopyN sys me input n =
            CopyN sys (me\<lparr>dest := dest me @ p, hasher := hasher me @ p\<rparr>)
              (drop (length p) input) (n - length p)"
      using False ne w [unfolded p_def] by (subst CopyN.simps) (simp add: p_def)
    with ih cat show ?thesis by simp
  qed
qed

lemma NewHashWriter_ok: "sysOk sys \<Longrightarrow> NewHashWriter sys = Done \<lparr>hasher = [], dest = []\<rparr>"
  by (simp add: NewHashWriter_def sysOk_def)

lemma saveViaMemory_ok:
  assumes "sysOk sys"
  shows "saveViaMemory sys H content me =
     Done (H content,
           me\<lparr>blobs := (blobs me)(H content \<mapsto> content),
              haveHash := insert (H content) (haveHash me),
              inMemoryCache := map_option (lruAdd sys (H content) content) (inMemoryCache me)\<rparr>)"
  by (simp add: saveViaMemory_def WriteClose_def NewHashWriter_ok [OF assms] Write_ok [OF assms]
      Close_ok [OF assms] Sum_def)

lemma CopyClose_ok:
  assumes "sysOk sys" "0 \<le> sz" "nat sz \<le> length input"
  shows "CopyClose sys H \<lparr>hasher = [], dest = []\<rparr> input sz files =
     Done (None, \<lparr>hasher = take (nat sz) input, dest = take (nat sz) input\<rparr>,
           files(H (take (nat sz) input) \<mapsto> take (nat sz) input))"
  by (simp add: CopyClose_def CopyN_ok [OF assms(1,3)] Close_ok [OF assms(1)])

lemma SaveStream_stream_ok:
  assumes "sysOk sys" "MEMORY_LIMIT \<le> int (length B)"
  shows "SaveStream sys H B (int (length B)) me =
     Done (H B, me\<lparr>blobs := (blobs me)(H B \<mapsto> B), haveHash := insert (H B) (haveHash me)\<rparr>)"
proof -
  have "CopyClose sys H \<lparr>hasher = [], dest = []\<rparr> B (int (length B)) (blobs me) =
     Done (None, \<lparr>hasher = take (nat (int (length B))) B, dest = take (nat (int (length B))) B\<rparr>,
           (blobs me)(H (take (nat (int (length B))) B) \<mapsto> take (nat (int (length B))) B))"
    by (rule CopyClose_ok [OF assms(1)]) simp_all
  with assms show ?thesis
    by (simp add: SaveStream_def NewHashWriter_ok Sum_def)
qed

text \<open>
  When the size passed is below the limit and is not the number of bytes the reader
  delivers, the in-memory path panics (\<open>log.Panicf\<close>, ``short read'').
\<close>

lemma SaveStream_short_read_panics:
  "sz < MEMORY_LIMIT \<Longrightarrow> int (length input) \<noteq> sz \<Longrightarrow> SaveStream sys H input sz me = Panic"
  by (simp add: SaveStream_def)

lemma SaveStream_memory:
  "int (length B) < MEMORY_LIMIT \<Longrightarrow> SaveStream sys H B (int (length B)) me = saveViaMemory sys H B me"
  by (simp add: SaveStream_def)

text \<open>
  Claim C7.  On a system without file errors, for every byte string \<open>B\<close>: \<open>SaveStream\<close>
  with size \<open>128 KiB - 1 = 131071\<close> (the length of \<open>B\<close>) takes the in-memory path, that is,
  it is \<open>saveViaMemory\<close> of the buffered bytes; with size \<open>128 KiB = 131072\<close> it takes the
  streaming path, which copies the input in pieces through the hash writer and leaves the
  in-memory cache alone.  The two paths agree on the digest: \<open>saveViaMemory\<close> returns the
  hash of \<open>B\<close> for every \<open>B\<close>, and so does the streaming path for every \<open>B\<close> it is taken for
  (those of at least \<open>_MEMORY_LIMIT\<close> bytes); both store \<open>B\<close> under that digest and mark
  it as present.
\<close>

theorem SaveStream_boundary:
  assumes "sysOk sys"
  shows "(length B = 131071 \<longrightarrow> SaveStream sys H B 131071 me = saveViaMemory sys H B me)
    \<and> (length B = 131072 \<longrightarrow>
         SaveStream sys H B 131072 me =
           Done (H B, me\<lparr>blobs := (blobs me)(H B \<mapsto> B), haveHash := insert (H B) (haveHash me)\<rparr>))
    \<and> saveViaMemory sys H B me =
         Done (H B,
               me\<lparr>blobs := (blobs me)(H B \<mapsto> B),
                  haveHash := insert (H B) (haveHash me),
                  inMemoryCache := map_option (lruAdd sys (H B) B) (inMemoryCache me)\<rparr>)
    \<and> (int (length B) < MEMORY_LIMIT \<longrightarrow>
         SaveStream sys H B (int (length B)) me = saveViaMemory sys H B me)
    \<and> (MEMORY_LIMIT \<le> int (length B) \<longrightarrow>
         SaveStream sys H B (int (length B)) me =
           Done (H B, me\<lparr>blobs := (blobs me)(H B \<mapsto> B), haveHash := insert (H B) (haveHash me)\<rparr>))"
proof (intro conjI impI)
  assume l: "length B = 131071"
  then have "int (length B) < MEMORY_LIMIT" by (simp add: MEMORY_LIMIT_def)
  from SaveStream_memory [OF this] l show "SaveStream sys H B 131071 me = saveViaMemory sys H B me"
    by simp
next
  assume l: "length B = 131072"
  then have "MEMORY_LIMIT \<le> int (length B)" by (simp add: MEMORY_LIMIT_def)
  from SaveStream_stream_ok [OF assms this] l
  show "SaveStream sys H B 131072 me =
           Done (H B, me\<lparr>blobs := (blobs me)(H B \<mapsto> B), haveHash := insert (H B) (haveHash me)\<rparr>)"
    by simp
next
  show "saveViaMemory sys H B me =
         Done (H B,
               me\<lparr>blobs := (blobs me)(H B \<mapsto> B),
                  haveHash := insert (H B) (haveHash me),
                  inMemoryCache := map_option (lruAdd sys (H B) B) (inMemoryCache me)\<rparr>)"
    by (rule saveViaMemory_ok [OF assms])
next
  assume "int (length B) < MEMORY_LIMIT"
  then show "SaveStream sys H B (int (length B)) me = saveViaMemory sys H B me"
    by (rule SaveStream_memory)
next
  assume "MEMORY_LIMIT \<le> int (length B)"
  then show "SaveStream sys H B (int (length B)) me =
           Done (H B, me\<lparr>blobs := (blobs me)(H B \<mapsto> B), haveHash := insert (H B) (haveHash me)\<rparr>)"
    by (rule SaveStream_stream_ok [OF assms])
qed


theorem SaveStream_boundary_witness:
  "sysOk \<lparr>tempFile = True, fileWrite = (\<lambda>f p. (length p, None)), fileClose = None, mkdirAllOk = True, renameOk = True,
          lruAdd = (\<lambda>h b (l::unit). l)\<rparr>
   \<and> length (replicate 131071 (0::byte)) = 131071
   \<and> length (replicate 131072 (0::byte)) = 131072
   \<and> (\<forall>H. SaveStream
          \<lparr>tempFile = True, fileWrite = (\<lambda>f p. (length p, None)), fileClose = None, mkdirAllOk = True, renameOk = True,
           lruAdd = (\<lambda>h b (l::unit). l)\<rparr>
          H (replicate 131071 0) 131071 \<lparr>haveHash = {}, inMemoryCache = Some (), blobs = Map.empty\<rparr>
        = Done (H (replicate 131071 0),
            \<lparr>haveHash = {H (replicate 131071 0)}, inMemoryCache = Some (),
             blobs = [H (replicate 131071 0) \<mapsto> replicate 131071 0]\<rparr>))
   \<and> (\<forall>H. SaveStream
          \<lparr>tempFile = True, fileWrite = (\<lambda>f p. (length p, None)), fileClose = None, mkdirAllOk = True, renameOk = True,
           lruAdd = (\<lambda>h b (l::unit). l)\<rparr>
          H (replicate 131072 0) 131072 \<lparr>haveHash = {}, inMemoryCache = Some (), blobs = Map.empty\<rparr>
        = Done (H (replicate 131072 0),
            \<lparr>haveHash = {H (replicate 131072 0)}, inMemoryCache = Some (),
             blobs = [H (replicate 131072 0) \<mapsto> replicate 131072 0]\<rparr>))"
proof -
  let ?sys = "\<lparr>tempFile = True, fileWrite = (\<lambda>f p. (length p, None)), fileClose = None,
               mkdirAllOk = True, renameOk = True, lruAdd = (\<lambda>h b (l::unit). l)\<rparr>"
  let ?me = "\<lparr>haveHash = {}, inMemoryCache = Some (), blobs = Map.empty\<rparr> :: unit ContentCache"
  have ok: "sysOk ?sys" by (simp add: sysOk_def)
  have a: "SaveStream ?sys H (replicate 131071 0) 131071 ?me
        = Done (H (replicate 131071 0),
            \<lparr>haveHash = {H (replicate 131071 0)}, inMemoryCache = Some (),
             blobs = [H (replicate 131071 0) \<mapsto> replicate 131071 0]\<rparr>)" for H
    using SaveStream_boundary [OF ok, of "replicate 131071 0" H ?me] by simp
  have b: "SaveStream ?sys H (replicate 131072 0) 131072 ?me
        = Done (H (replicate 131072 0),
            \<lparr>haveHash = {H (replicate 131072 0)}, inMemoryCache = Some (),
             blobs = [H (replicate 131072 0) \<mapsto> replicate 131072 0]\<rparr>)" for H
    using SaveStream_boundary [OF ok, of "replicate 131072 0" H ?me] by simp
  from ok a b show ?thesis by simp
qed

subsection \<open>Fetching a blob whose first chunk is short\<close>

lemma fetchLoop_short_first_chunk:
  assumes "fetcher \<lparr>ReqHash = hash, Start = 0, End = chunkSize\<rparr> = Inr chunk"
    and "int (length chunk) < chunkSize"
  shows "fetchLoop (Suc fuel) sys H fetcher hash output 0 me =
     Some ([Requested \<lparr>ReqHash = hash, Start = 0, End = chunkSize\<rparr>, SaveCalled chunk],
           andThen (Save sys H chunk me)
             (\<lambda>(saved, me1). if saved \<noteq> hash then Fatal else Done (None, me1)))"
  using assms by simp

text \<open>
  By contrast, a first chunk of full size is written to a hash writer and followed by a
  request at the offset reached.
\<close>

lemma fetchLoop_full_first_chunk:
  assumes "sysOk sys"
    and "fetcher \<lparr>ReqHash = hash, Start = 0, End = chunkSize\<rparr> = Inr chunk"
    and "chunkSize \<le> int (length chunk)"
  shows "fetchLoop (Suc fuel) sys H fetcher hash None 0 me =
     map_option (\<lambda>(evs, r). (Requested \<lparr>ReqHash = hash, Start = 0, End = chunkSize\<rparr> # evs, r))
       (fetchLoop fuel sys H fetcher hash (Some \<lparr>hasher = chunk, dest = chunk\<rparr>) (int (length chunk)) me)"
  using assms by (simp add: NewHashWriter_ok Write_ok)

text \<open>
  Claim C6.  When the digest is not yet in the store and the answer to the first request
  (offset 0, for the fixed chunk size of 256 KiB = 262144 bytes) is a chunk shorter than
  the chunk size, \<open>FetchFromServer\<close> returns after that single request: it makes exactly
  one \<open>Save\<close> call, with that chunk as the whole blob, and compares the digest \<open>Save\<close>
  returns with the requested one; a mismatch is \<open>log.Fatalf\<close>.  On a system without file
  errors this means: if the chunk hashes to the requested digest it is stored under it
  and \<open>nil\<close> is returned, otherwise the process ends.
\<close>

theorem FetchFromServer_short_first_chunk:
  assumes "\<not> HasHash me hash"
    and "fetcher \<lparr>ReqHash = hash, Start = 0, End = 262144\<rparr> = Inr chunk"
    and "length chunk < 262144"
  shows "FetchFromServer (Suc fuel) sys H fetcher hash me =
     Some ([Requested \<lparr>ReqHash = hash, Start = 0, End = 262144\<rparr>, SaveCalled chunk],
           andThen (Save sys H chunk me)
             (\<lambda>(saved, me1). if saved \<noteq> hash then Fatal else Done (None, me1)))
   \<and> (sysOk sys \<longrightarrow>
        FetchFromServer (Suc fuel) sys H fetcher hash me =
          Some ([Requested \<lparr>ReqHash = hash, Start = 0, End = 262144\<rparr>, SaveCalled chunk],
                if H chunk = hash
                then Done (None,
                       me\<lparr>blobs := (blobs me)(hash \<mapsto> chunk),
                          haveHash := insert hash (haveHash me),
                          inMemoryCache := map_option (lruAdd sys hash chunk) (inMemoryCache me)\<rparr>)
                else Fatal))"
proof -
  have cs: "chunkSize = 262144" by (simp add: chunkSize_def)
  from assms(2,3) have "fetchLoop (Suc fuel) sys H fetcher hash None 0 me =
     Some ([Requested \<lparr>ReqHash = hash, Start = 0, End = chunkSize\<rparr>, SaveCalled chunk],
           andThen (Save sys H chunk me)
             (\<lambda>(saved, me1). if saved \<noteq> hash then Fatal else Done (None, me1)))"
    by (intro fetchLoop_short_first_chunk) (simp_all add: cs)
  with assms(1) have 1: "FetchFromServer (Suc fuel) sys H fetcher hash me =
     Some ([Requested \<lparr>ReqHash = hash, Start = 0, End = 262144\<rparr>, SaveCalled chunk],
           andThen (Save sys H chunk me)
             (\<lambda>(saved, me1). if saved \<noteq> hash then Fatal else Done (None, me1)))"
    by (simp add: FetchFromServer_def cs)
  show ?thesis
  proof (intro conjI impI)
    show "FetchFromServer (Suc fuel) sys H fetcher hash me =
     Some ([Requested \<lparr>ReqHash = hash, Start = 0, End = 262144\<rparr>, SaveCalled chunk],
           andThen (Save sys H chunk me)
             (\<lambda>(saved, me1). if saved \<noteq> hash then Fatal else Done (None, me1)))"
      by (rule 1)
  next
    assume "sysOk sys"
    then show "FetchFromServer (Suc fuel) sys H fetcher hash me =
          Some ([Requested \<lparr>ReqHash = hash, Start = 0, End = 262144\<rparr>, SaveCalled chunk],
                if H chunk = hash
                then Done (None,
                       me\<lparr>blobs := (blobs me)(hash \<mapsto> chunk),
                          haveHash := insert hash (haveHash me),
                          inMemoryCache := map_option (lruAdd sys hash chunk) (inMemoryCache me)\<rparr>)
                else Fatal)"
      by (auto simp: 1 Save_def saveViaMemory_ok)
  qed
qed

theorem FetchFromServer_short_first_chunk_witness:
  "FetchFromServer (Suc 0)
     \<lparr>tempFile = True, fileWrite = (\<lambda>f p. (length p, None)), fileClose = None, mkdirAllOk = True, renameOk = True,
      lruAdd = (\<lambda>h b (l::unit). l)\<rparr>
     (\<lambda>bs. replicate (length bs) CHR ''x'') (\<lambda>req. Inr [1, 2, 3]) ''xxx''
     \<lparr>haveHash = {}, inMemoryCache = None, blobs = Map.empty\<rparr>
   = Some ([Requested \<lparr>ReqHash = ''xxx'', Start = 0, End = 262144\<rparr>, SaveCalled [1, 2, 3]],
       Done (None, \<lparr>haveHash = {''xxx''}, inMemoryCache = None, blobs = [''xxx'' \<mapsto> [1, 2, 3]]\<rparr>))"
  using FetchFromServer_short_first_chunk
    [of "\<lparr>haveHash = {}, inMemoryCache = None, blobs = Map.empty\<rparr> :: unit ContentCache" "''xxx''"
      "\<lambda>req. Inr [1, 2, 3]" "[1, 2, 3]" 0
      "\<lparr>tempFile = True, fileWrite = (\<lambda>f p. (length p, None)), fileClose = None, mkdirAllOk = True, renameOk = True,
        lruAdd = (\<lambda>h b (l::unit). l)\<rparr>"
      "\<lambda>bs. replicate (length bs) CHR ''x''", THEN conjunct2]
  by (simp add: HasHash_def sysOk_def)

section \<open>Properties of the mirror pool\<close>

subsection \<open>The accessors as sums\<close>





lemma wrapInt_id: "- (2 ^ 31) \<le> x \<Longrightarrow> x < 2 ^ 31 \<Longrightarrow> wrapInt x = x"
  by (simp add: wrapInt_def)



text \<open>
  Likewise \<open>maxJobs()\<close> is the sum of the capacities as long as these are not negative
  and their sum fits into an \<open>int\<close>.
\<close>

lemma maxJobsLoop_sum:
  "0 \<le> a \<Longrightarrow> \<forall>(addr, mc) \<in> set ms. 0 \<le> maxJobs (h mc) \<Longrightarrow>
     a + (\<Sum>(addr, mc)\<leftarrow>ms. maxJobs (h mc)) < 2 ^ 31 \<Longrightarrow>
     maxJobsLoop h ms a = a + (\<Sum>(addr, mc)\<leftarrow>ms. maxJobs (h mc))"
proof (induction ms arbitrary: a)
  case Nil
  then show ?case by simp
next
  case (Cons m ms)
  obtain addr mc where m: "m = (addr, mc)" by (cases m)
  from Cons.prems(2) have nn: "\<forall>(addr, mc) \<in> set ms. 0 \<le> maxJobs (h mc)" by simp
  then have rest: "0 \<le> (\<Sum>(addr, mc)\<leftarrow>ms. maxJobs (h mc))"
    by (intro sum_list_nonneg) auto
  from Cons.prems m have hd: "0 \<le> maxJobs (h mc)" by simp
  with Cons.prems m rest have range: "- (2 ^ 31) \<le> a + maxJobs (h mc)"
    "a + maxJobs (h mc) < 2 ^ 31" by simp_all
  have w: "wrapInt (a + maxJobs (h mc)) = a + maxJobs (h mc)"
    by (rule wrapInt_id [OF range])
  from Cons.prems m hd have "0 \<le> a + maxJobs (h mc)"
    "a + maxJobs (h mc) + (\<Sum>(addr, mc)\<leftarrow>ms. maxJobs (h mc)) < 2 ^ 31"
    by simp_all
  from Cons.IH [OF this(1) nn this(2)] m w show ?case by simp
qed

lemma poolMaxJobs_sumMaxJobs:
  "\<forall>(addr, mc) \<in> set (mirrors me). 0 \<le> maxJobs (conns me mc) \<Longrightarrow> sumMaxJobs me < 2 ^ 31 \<Longrightarrow>
     poolMaxJobs me = sumMaxJobs me"
  by (simp add: poolMaxJobs_def sumMaxJobs_def maxJobsLoop_sum)


lemma pickLoop_mem: "pickLoop h j ms = Some v \<Longrightarrow> v \<in> snd ` set ms"
  by (induction h j ms rule: pickLoop.induct) (auto split: if_splits)


subsection \<open>Refreshing the worker map\<close>

lemma fold_update_map_of:
  "map_of (fold (\<lambda>v m. AList.update (f v) True m) regs acc) k =
     (if k \<in> f ` set regs then Some True else map_of acc k)"
  by (induction regs arbitrary: acc) (auto simp: AList.update_conv')

lemma fold_update_keys:
  "fst ` set (fold (\<lambda>v m. AList.update (f v) True m) regs acc) = f ` set regs \<union> fst ` set acc"
  by (induction regs arbitrary: acc) (simp_all add: AList.dom_update Un_assoc [symmetric] Un_commute)

lemma fold_update_Nil_iff:
  "fold (\<lambda>v m. AList.update (f v) True m) regs acc = [] \<longleftrightarrow> regs = [] \<and> acc = []"
  by (induction regs arbitrary: acc rule: rev_induct) simp_all

lemma fold_update_distinct:
  "distinct (map fst acc) \<Longrightarrow> distinct (map fst (fold (\<lambda>v m. AList.update (f v) True m) regs acc))"
  by (induction regs arbitrary: acc) (auto simp: AList.distinct_update)

lemma fetchWorkers_Listed:
  "net (coordinator me) = Listed regs \<Longrightarrow>
     fetchWorkers net me = fold (\<lambda>v m. AList.update (Address v) True m) regs []"
  by (simp add: fetchWorkers_def)

lemma fetchWorkers_nonempty_iff:
  "0 < length (fetchWorkers net me) \<longleftrightarrow> (\<exists>regs. net (coordinator me) = Listed regs \<and> regs \<noteq> [])"
  by (cases "net (coordinator me)") (auto simp: fetchWorkers_def fold_update_Nil_iff)

text \<open>
  Claim C9.  \<open>refreshWorkers\<close> assigns the pool's \<open>workers\<close> map exactly when the
  coordinator fetch yields a non-empty map, which is exactly when the \<open>List\<close> RPC answered
  with at least one registration; the new map then has the registered addresses as keys,
  each with value \<open>true\<close>.  When dialing fails, the RPC fails or the list of registrations
  is empty, the pool (its \<open>workers\<close> map included) is left exactly as it was.
\<close>

theorem refreshWorkers_frame:
  "(0 < length (fetchWorkers net me) \<longleftrightarrow> (\<exists>regs. net (coordinator me) = Listed regs \<and> regs \<noteq> []))
   \<and> (\<forall>regs. net (coordinator me) = Listed regs \<and> regs \<noteq> [] \<longrightarrow>
         refreshWorkers net me = me\<lparr>workers := fetchWorkers net me\<rparr>
         \<and> fst ` set (fetchWorkers net me) = Address ` set regs
         \<and> (\<forall>addr \<in> Address ` set regs. map_of (fetchWorkers net me) addr = Some True))
   \<and> ((\<exists>err. net (coordinator me) = DialError err) \<or> (\<exists>err. net (coordinator me) = CallError err)
        \<or> net (coordinator me) = Listed [] \<longrightarrow> refreshWorkers net me = me)"
proof (intro conjI allI impI)
  show "0 < length (fetchWorkers net me) \<longleftrightarrow> (\<exists>regs. net (coordinator me) = Listed regs \<and> regs \<noteq> [])"
    by (rule fetchWorkers_nonempty_iff)
next
  fix regs
  assume a: "net (coordinator me) = Listed regs \<and> regs \<noteq> []"
  then have "0 < length (fetchWorkers net me)" using fetchWorkers_nonempty_iff by blast
  then show "refreshWorkers net me = me\<lparr>workers := fetchWorkers net me\<rparr>"
    by (simp add: refreshWorkers_def Let_def)
  from a show "fst ` set (fetchWorkers net me) = Address ` set regs"
    by (simp add: fetchWorkers_Listed fold_update_keys)
  from a show "\<forall>addr \<in> Address ` set regs. map_of (fetchWorkers net me) addr = Some True"
    by (simp add: fetchWorkers_Listed fold_update_map_of)
next
  assume "(\<exists>err. net (coordinator me) = DialError err) \<or> (\<exists>err. net (coordinator me) = CallError err)
        \<or> net (coordinator me) = Listed []"
  then have "\<not> 0 < length (fetchWorkers net me)"
    unfolding fetchWorkers_nonempty_iff by auto
  then show "refreshWorkers net me = me"
    by (simp add: refreshWorkers_def Let_def)
qed

theorem refreshWorkers_frame_witness:
  "refreshWorkers (\<lambda>c. Listed [\<lparr>Address = ''w1:1234''\<rparr>]) (newMirrorConnections () [''old:1''] ''coord:1'' 4)
     = (newMirrorConnections () [''old:1''] ''coord:1'' 4)
         \<lparr>workers := fetchWorkers (\<lambda>c. Listed [\<lparr>Address = ''w1:1234''\<rparr>])
                       (newMirrorConnections () [''old:1''] ''coord:1'' 4)\<rparr>
   \<and> map_of (fetchWorkers (\<lambda>c. Listed [\<lparr>Address = ''w1:1234''\<rparr>])
               (newMirrorConnections () [''old:1''] ''coord:1'' 4)) ''w1:1234'' = Some True
   \<and> refreshWorkers (\<lambda>c. DialError ''connection refused'') (newMirrorConnections () [''old:1''] ''coord:1'' 4)
       = newMirrorConnections () [''old:1''] ''coord:1'' 4
   \<and> refreshWorkers (\<lambda>c. Listed []) (newMirrorConnections () [''old:1''] ''coord:1'' 4)
       = newMirrorConnections () [''old:1''] ''coord:1'' 4"
  using refreshWorkers_frame [of "\<lambda>c. Listed [\<lparr>Address = ''w1:1234''\<rparr>]"
      "newMirrorConnections () [''old:1''] ''coord:1'' 4"]
    refreshWorkers_frame [of "\<lambda>c. DialError ''connection refused''"
      "newMirrorConnections () [''old:1''] ''coord:1'' 4"]
    refreshWorkers_frame [of "\<lambda>c. Listed []" "newMirrorConnections () [''old:1''] ''coord:1'' 4"]
  by simp

subsection \<open>Queueing a file set on the other mirrors\<close>

lemma queueFilesLoop_other:
  "mc \<notin> snd ` set ms \<or> mc = origin \<Longrightarrow> queueFilesLoop origin fset ms h mc = h mc"
  by (induction origin fset ms h rule: queueFilesLoop.induct) auto

lemma queueFilesLoop_member:
  "distinct (map snd ms) \<Longrightarrow> mc \<in> snd ` set ms \<Longrightarrow> mc \<noteq> origin \<Longrightarrow>
     queueFilesLoop origin fset ms h mc = queueFiles fset (h mc)"
proof (induction ms arbitrary: h)
  case Nil
  then show ?case by simp
next
  case (Cons m ms)
  obtain addr w where m: "m = (addr, w)" by (cases m)
  from Cons.prems m have d: "distinct (map snd ms)" "w \<notin> snd ` set ms" by auto
  show ?case
  proof (cases "mc = w")
    case True
    with d have "queueFilesLoop origin fset ms (h(w := queueFiles fset (h w))) mc
                 = (h(w := queueFiles fset (h w))) mc"
      by (simp add: queueFilesLoop_other)
    with True Cons.prems m show ?thesis by simp
  next
    case False
    with Cons.prems m have mem: "mc \<in> snd ` set ms" by auto
    have "queueFilesLoop origin fset ms (h(w := queueFiles fset (h w))) mc
            = queueFiles fset ((h(w := queueFiles fset (h w))) mc)"
      by (rule Cons.IH [OF d(1) mem Cons.prems(3)])
    moreover have "queueFilesLoop origin fset ms h mc = queueFiles fset (h mc)"
      by (rule Cons.IH [OF d(1) mem Cons.prems(3)])
    ultimately show ?thesis using False m by (cases "origin = w") auto
  qed
qed

text \<open>
  Claim C8.  In a pool where no connection is open under two addresses (which holds in
  every reachable state, see \<open>reachable_no_alias\<close> below), the pool-level
  \<open>queueFiles(origin, fset)\<close> appends the files of \<open>fset\<close> to the pending queue of every
  open mirror other than \<open>origin\<close> and changes nothing else of it; \<open>origin\<close> itself and
  every connection that is not open are left as they were, and so is the set of mirrors.
\<close>

theorem poolQueueFiles_skips_origin:
  assumes "distinct (map snd (mirrors me))"
  shows "mirrors (poolQueueFiles origin fset me) = mirrors me
    \<and> (\<forall>mc \<in> snd ` set (mirrors me). mc \<noteq> origin \<longrightarrow>
          conns (poolQueueFiles origin fset me) mc
            = (conns me mc)\<lparr>pendingChanges := pendingChanges (conns me mc) @ Files fset\<rparr>)
    \<and> conns (poolQueueFiles origin fset me) origin = conns me origin
    \<and> (\<forall>mc. mc \<notin> snd ` set (mirrors me) \<longrightarrow> conns (poolQueueFiles origin fset me) mc = conns me mc)"
  using assms
  by (simp add: poolQueueFiles_def queueFilesLoop_other queueFilesLoop_member queueFiles_def)

subsection \<open>The clamped sum and its two tests\<close>




text \<open>
  With the int64 sum written out, a keep-alive time near the top of the range makes the
  sum wrap: the idle pool is dropped one second after the last job.
\<close>

lemma maybeDropConnections_keepAlive_wraps:
  "maybeDropConnections () 1793560001000000000
     ((newMirrorConnections () [] [] 1)
        \<lparr>mirrors := [(''a:1'', 0)],
         conns := (\<lambda>p. blankConnection)(0 := blankConnection\<lparr>maxJobs := 1, availableJobs := 1\<rparr>),
         nextConn := Suc 0, lastActionNs := 1793560000000000000,
         keepAliveNs := 9000000000000000000\<rparr>)
   = dropConnections ()
       ((newMirrorConnections () [] [] 1)
          \<lparr>mirrors := [(''a:1'', 0)],
           conns := (\<lambda>p. blankConnection)(0 := blankConnection\<lparr>maxJobs := 1, availableJobs := 1\<rparr>),
           nextConn := Suc 0, lastActionNs := 1793560000000000000,
           keepAliveNs := 9000000000000000000\<rparr>)"
  by (simp add: maybeDropConnections_def poolAvailableJobs_def poolMaxJobs_def wrapInt_def
      newMirrorConnections_def blankConnection_def)


subsection \<open>The invariant of the reachable states\<close>

lemma closeAll_jobs:
  "availableJobs (closeAll ms h mc) = availableJobs (h mc) \<and> maxJobs (closeAll ms h mc) = maxJobs (h mc)"
  by (induction ms arbitrary: h) auto

lemma queueFilesLoop_jobs:
  "availableJobs (queueFilesLoop origin fset ms h mc) = availableJobs (h mc)
   \<and> maxJobs (queueFilesLoop origin fset ms h mc) = maxJobs (h mc)"
  by (induction ms arbitrary: h) (auto simp: queueFiles_def)

lemma tryConnectLoop_Some:
  "tryConnectLoop create wanted ms ws bl = (bl', Some (addr, mc)) \<Longrightarrow>
     map_of ms addr = None \<and> create addr wanted = Inr mc"
  by (induction create wanted ms ws bl rule: tryConnectLoop.induct)
     (auto split: if_splits sum.splits)

lemma update_fresh: "map_of ms k = None \<Longrightarrow> AList.update k v ms = ms @ [(k, v)]"
  by (induction ms) (auto split: if_splits)

lemma distinct_snd_delete: "distinct (map snd ms) \<Longrightarrow> distinct (map snd (AList.delete k ms))"
  by (simp add: AList.delete_eq distinct_map_filter)

lemma set_delete_subset: "set (AList.delete k ms) \<subseteq> set ms"
  by (auto simp: AList.delete_eq)

lemma poolInv_new: "poolInv (newMirrorConnections st ws coord mj) (\<lambda>mc. 0)"
  by (simp add: poolInv_def newMirrorConnections_def blankConnection_def)

lemma poolInv_workers: "poolInv me out \<Longrightarrow> poolInv (me\<lparr>workers := ws\<rparr>) out"
  by (simp add: poolInv_def)

lemma poolInv_tryConnect:
  assumes "poolInv me out" "createOk create"
  shows "poolInv (tryConnect create me) out"
proof (cases "wrapInt (wantedMaxJobs me - poolMaxJobs me) \<le> 0")
  case True
  with assms show ?thesis by (simp add: tryConnect_def Let_def)
next
  case False
  obtain bl res where r: "tryConnectLoop create (wrapInt (wantedMaxJobs me - poolMaxJobs me)) (mirrors me) (workers me) [] = (bl, res)"
    by (cases "tryConnectLoop create (wrapInt (wantedMaxJobs me - poolMaxJobs me)) (mirrors me) (workers me) []")
  show ?thesis
  proof (cases res)
    case None
    with r False have "tryConnect create me = me\<lparr>workers := fold AList.delete bl (workers me)\<rparr>"
      by (simp add: tryConnect_def Let_def)
    with assms show ?thesis by (simp add: poolInv_workers)
  next
    case (Some am)
    obtain addr mc where am: "am = (addr, mc)" by (cases am)
    from r Some am tryConnectLoop_Some
    have fresh: "map_of (mirrors me) addr = None" and cr: "create addr (wrapInt (wantedMaxJobs me - poolMaxJobs me)) = Inr mc"
      by blast+
    from cr assms(2) have le: "availableJobs mc \<le> maxJobs mc" by (auto simp: createOk_def)
    from fresh have notin: "addr \<notin> fst ` set (mirrors me)" by (simp add: map_of_eq_None_iff)
    from r Some am False have eq: "tryConnect create me =
        me\<lparr>conns := (conns me)(nextConn me := mc\<lparr>workerAddr := addr\<rparr>),
           nextConn := Suc (nextConn me),
           mirrors := mirrors me @ [(addr, nextConn me)],
           workers := fold AList.delete bl (workers me)\<rparr>"
      by (simp add: tryConnect_def Let_def update_fresh [OF fresh])
    from assms(1) have out0: "out (nextConn me) = 0" by (simp add: poolInv_def)
    from assms(1) have lt: "\<forall>p \<in> snd ` set (mirrors me). p < nextConn me" by (simp add: poolInv_def)
    then have "nextConn me \<notin> snd ` set (mirrors me)" by auto
    with assms(1) le out0 notin lt show ?thesis
      unfolding eq by (auto simp: poolInv_def less_Suc_eq)
  qed
qed


lemma poolInv_decrement:
  assumes "poolInv me out" "found \<in> snd ` set (mirrors me)"
  shows "poolInv
           (me\<lparr>conns := (conns me)
               (found := (conns me found)\<lparr>availableJobs := availableJobs (conns me found) - 1\<rparr>)\<rparr>)
           (out(found := Suc (out found)))"
proof -
  from assms have "found < nextConn me" by (auto simp: poolInv_def)
  with assms(1) show ?thesis by (auto simp: poolInv_def)
qed

lemma pick_Picked:
  assumes "pick net create r me = (Picked found, me')"
  shows "\<exists>me1. (me1 = me \<or> me1 = tryConnect create me
                 \<or> me1 = tryConnect create (me\<lparr>workers := fetchWorkers net me\<rparr>))
          \<and> found \<in> snd ` set (mirrors me1)
          \<and> me' = me1\<lparr>conns := (conns me1)
                (found := (conns me1 found)\<lparr>availableJobs := availableJobs (conns me1 found) - 1\<rparr>)\<rparr>"
  using assms
  by (auto simp: pick_def Let_def split: if_splits option.splits dest!: pickLoop_mem)

lemma pick_NoWorkers:
  assumes "pick net create r me = (NoWorkers err, me')"
  shows "me' = tryConnect create me \<or> me' = tryConnect create (me\<lparr>workers := fetchWorkers net me\<rparr>)"
  using assms
  by (auto simp: pick_def Let_def split: if_splits option.splits)

lemma poolInv_pick:
  assumes "poolInv me out" "createOk create" "pick net create r me = (Picked found, me')"
  shows "poolInv me' (out(found := Suc (out found)))"
proof -
  from pick_Picked [OF assms(3)] obtain me1 where
    me1: "me1 = me \<or> me1 = tryConnect create me \<or> me1 = tryConnect create (me\<lparr>workers := fetchWorkers net me\<rparr>)"
    and mem: "found \<in> snd ` set (mirrors me1)"
    and eq: "me' = me1\<lparr>conns := (conns me1)
                (found := (conns me1 found)\<lparr>availableJobs := availableJobs (conns me1 found) - 1\<rparr>)\<rparr>"
    by blast
  from me1 assms(1,2) have "poolInv me1 out"
    by (auto intro: poolInv_tryConnect poolInv_workers)
  from poolInv_decrement [OF this mem] eq show ?thesis by simp
qed

lemma poolInv_pick_error:
  assumes "poolInv me out" "createOk create" "pick net create r me = (NoWorkers err, me')"
  shows "poolInv me' out"
  using pick_NoWorkers [OF assms(3)] assms(1,2)
  by (auto intro: poolInv_tryConnect poolInv_workers)

lemma poolInv_jobDone:
  assumes "poolInv me out" "0 < out mc"
  shows "poolInv (jobDone now mc me) (out(mc := out mc - 1))"
  using assms by (auto simp: poolInv_def jobDone_def)

lemma poolInv_drop: "poolInv me out \<Longrightarrow> poolInv (drop_conn mc err me) out"
  using set_delete_subset [of "workerAddr (conns me mc)" "mirrors me"]
  by (auto simp: poolInv_def drop_conn_def distinct_snd_delete AList.distinct_delete)

lemma poolInv_dropConnections: "poolInv me out \<Longrightarrow> poolInv (dropConnections st me) out"
  by (simp add: poolInv_def dropConnections_def closeAll_jobs)

lemma poolInv_maybeDropConnections: "poolInv me out \<Longrightarrow> poolInv (maybeDropConnections st now me) out"
  by (simp add: maybeDropConnections_def poolInv_dropConnections)

lemma poolInv_refreshWorkers: "poolInv me out \<Longrightarrow> poolInv (refreshWorkers net me) out"
  by (simp add: refreshWorkers_def Let_def poolInv_workers)

lemma poolInv_queueFiles: "poolInv me out \<Longrightarrow> poolInv (poolQueueFiles origin fset me) out"
  by (simp add: poolInv_def poolQueueFiles_def queueFilesLoop_jobs)

lemma sendFiles_jobs:
  "availableJobs (snd (snd (sendFiles call c))) = availableJobs c
   \<and> maxJobs (snd (snd (sendFiles call c))) = maxJobs c"
  by (simp add: sendFiles_def split: option.splits)

lemma poolInv_sendFiles:
  "poolInv me out
    \<Longrightarrow> poolInv (me\<lparr>conns := (conns me)(mc := snd (snd (sendFiles call (conns me mc))))\<rparr>) out"
  by (simp add: poolInv_def sendFiles_jobs)

lemma poolInv_range_order:
  assumes "poolInv me out" "mset ms = mset (mirrors me)"
  shows "poolInv (me\<lparr>mirrors := ms, workers := ws\<rparr>) out"
proof -
  from assms(2) have s: "set ms = set (mirrors me)" by (rule mset_eq_setD)
  from assms(2) have m: "mset (map snd ms) = mset (map snd (mirrors me))"
    "mset (map fst ms) = mset (map fst (mirrors me))" by simp_all
  have "distinct (map snd ms) \<longleftrightarrow> distinct (map snd (mirrors me))"
    by (rule mset_eq_imp_distinct_iff [OF m(1)])
  moreover have "distinct (map fst ms) \<longleftrightarrow> distinct (map fst (mirrors me))"
    by (rule mset_eq_imp_distinct_iff [OF m(2)])
  ultimately show ?thesis using assms(1) s by (simp add: poolInv_def)
qed

lemma reachable_poolInv: "reachable me out \<Longrightarrow> poolInv me out"
proof (induction rule: reachable.induct)
  case (reach_new st ws coord mj)
  show ?case by (rule poolInv_new)
next
  case (reach_pick me out create net r mc me')
  show ?case by (rule poolInv_pick [OF reach_pick.IH reach_pick.hyps(2,3)])
next
  case (reach_pick_error me out create net r err me')
  then show ?case by (blast intro: poolInv_pick_error)
next
  case (reach_jobDone me out mc now)
  show ?case by (rule poolInv_jobDone [OF reach_jobDone.IH reach_jobDone.hyps(2)])
next
  case (reach_drop me out mc err)
  then show ?case by (simp add: poolInv_drop)
next
  case (reach_tryConnect me out create)
  then show ?case by (simp add: poolInv_tryConnect)
next
  case (reach_setKeepAliveNs me out keepAlive period)
  then show ?case by (simp add: poolInv_def setKeepAliveNs_def)
next
  case (reach_dropConnections me out st)
  then show ?case by (simp add: poolInv_dropConnections)
next
  case (reach_maybeDropConnections me out st now)
  then show ?case by (simp add: poolInv_maybeDropConnections)
next
  case (reach_refreshWorkers me out net)
  then show ?case by (simp add: poolInv_refreshWorkers)
next
  case (reach_queueFiles me out origin fset)
  then show ?case by (simp add: poolInv_queueFiles)
next
  case (reach_sendFiles me out mc call)
  then show ?case by (simp add: poolInv_sendFiles)
next
  case (reach_range_order me out ms ws)
  then show ?case by (simp add: poolInv_range_order)
qed


lemma reachable_no_alias: "reachable me out \<Longrightarrow> distinct (map snd (mirrors me))"
  using reachable_poolInv [of me out] by (simp add: poolInv_def)


subsection \<open>Concrete runs of the pool\<close>

theorem poolQueueFiles_skips_origin_witness:
  "distinct (map snd (mirrors ((newMirrorConnections () [] [] 2)\<lparr>mirrors := [(''a:1'', 0), (''b:1'', 1)], nextConn := 2\<rparr>)))
   \<and> pendingChanges (conns (poolQueueFiles 0 \<lparr>Files = [\<lparr>Path = ''a.o'', Hash = ''d1''\<rparr>]\<rparr>
         ((newMirrorConnections () [] [] 2)\<lparr>mirrors := [(''a:1'', 0), (''b:1'', 1)], nextConn := 2\<rparr>)) 1)
       = [\<lparr>Path = ''a.o'', Hash = ''d1''\<rparr>]
   \<and> pendingChanges (conns (poolQueueFiles 0 \<lparr>Files = [\<lparr>Path = ''a.o'', Hash = ''d1''\<rparr>]\<rparr>
         ((newMirrorConnections () [] [] 2)\<lparr>mirrors := [(''a:1'', 0), (''b:1'', 1)], nextConn := 2\<rparr>)) 0)
       = []"
  using poolQueueFiles_skips_origin [of "(newMirrorConnections () [] [] 2)\<lparr>mirrors := [(''a:1'', 0), (''b:1'', 1)], nextConn := 2\<rparr>"
      0 "\<lparr>Files = [\<lparr>Path = ''a.o'', Hash = ''d1''\<rparr>]\<rparr>"]
  by (simp add: newMirrorConnections_def blankConnection_def)







section \<open>Properties of replay\<close>

lemma replayFetch_skip:
  "Hash info = [] \<Longrightarrow> replayFetch fetch (info # infos) c = replayFetch fetch infos c"
  by simp

lemma replayFetch_ok:
  "replayFetch fetch infos c = (None, evs, c') \<Longrightarrow>
     evs = map Fetched (filter (\<lambda>h. h \<noteq> []) (map Hash infos))
     \<and> c' = fold (\<lambda>h c. snd (fetch h c)) (filter (\<lambda>h. h \<noteq> []) (map Hash infos)) c
     \<and> (\<forall>hs h rest. filter (\<lambda>h. h \<noteq> []) (map Hash infos) = hs @ [h] @ rest \<longrightarrow>
           fst (fetch h (fold (\<lambda>h c. snd (fetch h c)) hs c)) = None)"
proof (induction infos arbitrary: c evs c')
  case Nil
  then show ?case by simp
next
  case (Cons info infos)
  show ?case
  proof (cases "Hash info = []")
    case True
    with Cons.prems have "replayFetch fetch infos c = (None, evs, c')" by simp
    from Cons.IH [OF this] True show ?thesis by simp
  next
    case False
    obtain e c1 where f: "fetch (Hash info) c = (e, c1)" by (cases "fetch (Hash info) c")
    obtain e2 evs2 c2 where r: "replayFetch fetch infos c1 = (e2, evs2, c2)"
      by (cases "replayFetch fetch infos c1") auto
    from Cons.prems False f r have eq: "e = None" "e2 = None" "evs = Fetched (Hash info) # evs2" "c2 = c'"
      by (auto split: option.splits)
    note ih = Cons.IH [OF r [unfolded eq(2,4)]]
    have "fst (fetch h (fold (\<lambda>h c. snd (fetch h c)) hs c)) = None"
      if split: "Hash info # filter (\<lambda>h. h \<noteq> []) (map Hash infos) = hs @ [h] @ rest" for hs h rest
    proof (cases hs)
      case Nil
      with split f eq(1) show ?thesis by simp
    next
      case (Cons h0 hs')
      with split have "h0 = Hash info" "filter (\<lambda>h. h \<noteq> []) (map Hash infos) = hs' @ [h] @ rest"
        by simp_all
      with ih Cons f show ?thesis by simp
    qed
    with ih eq(3) False f show ?thesis by simp
  qed
qed

lemma replayFetch_error:
  "replayFetch fetch infos c = (Some err, evs, c') \<Longrightarrow>
     \<exists>hs h rest. evs = map Fetched (hs @ [h])
        \<and> filter (\<lambda>h. h \<noteq> []) (map Hash infos) = hs @ [h] @ rest
        \<and> fetch h (fold (\<lambda>h c. snd (fetch h c)) hs c) = (Some err, c')"
proof (induction infos arbitrary: c evs c')
  case Nil
  then show ?case by simp
next
  case (Cons info infos)
  show ?case
  proof (cases "Hash info = []")
    case True
    with Cons.prems have "replayFetch fetch infos c = (Some err, evs, c')" by simp
    from Cons.IH [OF this] True show ?thesis by simp
  next
    case False
    obtain e c1 where f: "fetch (Hash info) c = (e, c1)" by (cases "fetch (Hash info) c")
    show ?thesis
    proof (cases e)
      case None
      obtain e2 evs2 c2 where r: "replayFetch fetch infos c1 = (e2, evs2, c2)"
        by (cases "replayFetch fetch infos c1") auto
      with Cons.prems False f None have eq: "e2 = Some err" "evs = Fetched (Hash info) # evs2" "c2 = c'"
        by auto
      from Cons.IH [OF r [unfolded eq(1,3)]] obtain hs h rest where
        "evs2 = map Fetched (hs @ [h])"
        "filter (\<lambda>h. h \<noteq> []) (map Hash infos) = hs @ [h] @ rest"
        "fetch h (fold (\<lambda>h c. snd (fetch h c)) hs c1) = (Some err, c')"
        by blast
      with eq(2) False f have "evs = map Fetched ((Hash info # hs) @ [h])
          \<and> filter (\<lambda>h. h \<noteq> []) (map Hash (info # infos)) = (Hash info # hs) @ [h] @ rest
          \<and> fetch h (fold (\<lambda>h c. snd (fetch h c)) (Hash info # hs) c) = (Some err, c')"
        by simp
      then show ?thesis by blast
    next
      case (Some e1)
      with Cons.prems False f have "e1 = err" "evs = [Fetched (Hash info)]" "c1 = c'" by auto
      with f Some False have "evs = map Fetched ([] @ [Hash info])
          \<and> filter (\<lambda>h. h \<noteq> []) (map Hash (info # infos)) = [] @ [Hash info] @ filter (\<lambda>h. h \<noteq> []) (map Hash infos)
          \<and> fetch (Hash info) (fold (\<lambda>h c. snd (fetch h c)) [] c) = (Some err, c')"
        by simp
      then show ?thesis by blast
    qed
  qed
qed

text \<open>
  Claim C1.  \<open>replay(fset)\<close> on a mirror connection fetches, in the order of the file set,
  the content of every entry whose \<open>Hash\<close> is not empty, and only then applies the file set
  to the master's root and queues it on the other mirrors.  If a fetch returns an error,
  \<open>replay\<close> returns that error at once: what it has done up to then are fetches only (the
  failing one last), the root is not touched and nothing is queued on any mirror: root and
  pool are as before.  (The content cache is what the fetches before the failing one have
  made of it.)  If \<open>replay\<close> returns \<open>nil\<close>, every fetch was made and returned \<open>nil\<close>, and
  the file set was applied by \<open>Master.replay\<close> and queued by the pool's \<open>queueFiles\<close> with
  this connection as origin.
\<close>

theorem replay_fetches_before_applying:
  "(\<forall>err evs m'. replay fetch masterReplay me fset m = (Some err, evs, m') \<longrightarrow>
       writableRoot m' = writableRoot m \<and> mirrorPool m' = mirrorPool m
       \<and> (\<exists>hs h rest. evs = map Fetched (hs @ [h])
             \<and> filter (\<lambda>h. h \<noteq> []) (map Hash (Files fset)) = hs @ [h] @ rest
             \<and> fetch h (fold (\<lambda>h c. snd (fetch h c)) hs (cache m)) = (Some err, cache m')))
   \<and> (\<forall>evs m'. replay fetch masterReplay me fset m = (None, evs, m') \<longrightarrow>
       evs = map Fetched (filter (\<lambda>h. h \<noteq> []) (map Hash (Files fset))) @ [Replayed fset, Queued fset]
       \<and> (\<forall>hs h rest. filter (\<lambda>h. h \<noteq> []) (map Hash (Files fset)) = hs @ [h] @ rest \<longrightarrow>
             fst (fetch h (fold (\<lambda>h c. snd (fetch h c)) hs (cache m))) = None)
       \<and> writableRoot m' = masterReplay fset (writableRoot m)
       \<and> mirrorPool m' = poolQueueFiles me fset (mirrorPool m))"
proof (intro conjI allI impI)
  fix err evs m'
  assume a: "replay fetch masterReplay me fset m = (Some err, evs, m')"
  obtain e evs1 c1 where r: "replayFetch fetch (Files fset) (cache m) = (e, evs1, c1)"
    by (cases "replayFetch fetch (Files fset) (cache m)") auto
  with a have eq: "e = Some err" "evs1 = evs" "m' = m\<lparr>cache := c1\<rparr>"
    by (auto simp: replay_def split: option.splits)
  then show "writableRoot m' = writableRoot m" "mirrorPool m' = mirrorPool m" by simp_all
  from replayFetch_error [OF r [unfolded eq(1,2)]] eq(3)
  show "\<exists>hs h rest. evs = map Fetched (hs @ [h])
             \<and> filter (\<lambda>h. h \<noteq> []) (map Hash (Files fset)) = hs @ [h] @ rest
             \<and> fetch h (fold (\<lambda>h c. snd (fetch h c)) hs (cache m)) = (Some err, cache m')"
    by simp
next
  fix evs m'
  assume a: "replay fetch masterReplay me fset m = (None, evs, m')"
  obtain e evs1 c1 where r: "replayFetch fetch (Files fset) (cache m) = (e, evs1, c1)"
    by (cases "replayFetch fetch (Files fset) (cache m)") auto
  with a have eq: "e = None" "evs = evs1 @ [Replayed fset, Queued fset]"
      "m' = m\<lparr>cache := c1, writableRoot := masterReplay fset (writableRoot m),
              mirrorPool := poolQueueFiles me fset (mirrorPool m)\<rparr>"
    by (auto simp: replay_def split: option.splits)
  note ok = replayFetch_ok [OF r [unfolded eq(1)]]
  from ok eq(2)
  show "evs = map Fetched (filter (\<lambda>h. h \<noteq> []) (map Hash (Files fset))) @ [Replayed fset, Queued fset]"
    by simp
  show "fst (fetch h (fold (\<lambda>h c. snd (fetch h c)) hs (cache m))) = None"
    if "filter (\<lambda>h. h \<noteq> []) (map Hash (Files fset)) = hs @ [h] @ rest" for hs h rest
    using ok that by blast
  from eq(3) show "writableRoot m' = masterReplay fset (writableRoot m)"
    "mirrorPool m' = poolQueueFiles me fset (mirrorPool m)" by simp_all
qed

theorem replay_fetches_before_applying_witness:
  "replay (\<lambda>h c. if h = ''bad'' then (Some ''rpc failed'', c) else (None, insert h c))
     (\<lambda>fset r. r @ Files fset) 0
     \<lparr>Files = [\<lparr>Path = ''a.o'', Hash = ''d1''\<rparr>, \<lparr>Path = ''dir'', Hash = []\<rparr>, \<lparr>Path = ''b.o'', Hash = ''bad''\<rparr>]\<rparr>
     \<lparr>cache = {}, writableRoot = [], mirrorPool = ((newMirrorConnections () [] [] 2)\<lparr>mirrors := [(''a:1'', 0), (''b:1'', Suc 0)], nextConn := 2\<rparr>)\<rparr>
   = (Some ''rpc failed'', [Fetched ''d1'', Fetched ''bad''],
      \<lparr>cache = {''d1''}, writableRoot = [], mirrorPool = ((newMirrorConnections () [] [] 2)\<lparr>mirrors := [(''a:1'', 0), (''b:1'', Suc 0)], nextConn := 2\<rparr>)\<rparr>)
   \<and> replay (\<lambda>h c. if h = ''bad'' then (Some ''rpc failed'', c) else (None, insert h c))
     (\<lambda>fset r. r @ Files fset) 0
     \<lparr>Files = [\<lparr>Path = ''a.o'', Hash = ''d1''\<rparr>]\<rparr>
     \<lparr>cache = {}, writableRoot = [], mirrorPool = ((newMirrorConnections () [] [] 2)\<lparr>mirrors := [(''a:1'', 0), (''b:1'', Suc 0)], nextConn := 2\<rparr>)\<rparr>
   = (None, [Fetched ''d1'', Replayed \<lparr>Files = [\<lparr>Path = ''a.o'', Hash = ''d1''\<rparr>]\<rparr>, Queued \<lparr>Files = [\<lparr>Path = ''a.o'', Hash = ''d1''\<rparr>]\<rparr>],
      \<lparr>cache = {''d1''}, writableRoot = [\<lparr>Path = ''a.o'', Hash = ''d1''\<rparr>],
       mirrorPool = poolQueueFiles 0 \<lparr>Files = [\<lparr>Path = ''a.o'', Hash = ''d1''\<rparr>]\<rparr> ((newMirrorConnections () [] [] 2)\<lparr>mirrors := [(''a:1'', 0), (''b:1'', Suc 0)], nextConn := 2\<rparr>)\<rparr>)
   \<and> pendingChanges (conns (poolQueueFiles 0 \<lparr>Files = [\<lparr>Path = ''a.o'', Hash = ''d1''\<rparr>]\<rparr> ((newMirrorConnections () [] [] 2)\<lparr>mirrors := [(''a:1'', 0), (''b:1'', Suc 0)], nextConn := 2\<rparr>)) (Suc 0)) = [\<lparr>Path = ''a.o'', Hash = ''d1''\<rparr>]"
proof -
  let ?m = "\<lparr>cache = {}, writableRoot = [], mirrorPool = ((newMirrorConnections () [] [] 2)\<lparr>mirrors := [(''a:1'', 0), (''b:1'', Suc 0)], nextConn := 2\<rparr>)\<rparr>"
  have e1: "replay (\<lambda>h c. if h = ''bad'' then (Some ''rpc failed'', c) else (None, insert h c))
     (\<lambda>fset r. r @ Files fset) 0 \<lparr>Files = [\<lparr>Path = ''a.o'', Hash = ''d1''\<rparr>, \<lparr>Path = ''dir'', Hash = []\<rparr>, \<lparr>Path = ''b.o'', Hash = ''bad''\<rparr>]\<rparr> ?m
    = (Some ''rpc failed'', [Fetched ''d1'', Fetched ''bad''],
       \<lparr>cache = {''d1''}, writableRoot = [], mirrorPool = ((newMirrorConnections () [] [] 2)\<lparr>mirrors := [(''a:1'', 0), (''b:1'', Suc 0)], nextConn := 2\<rparr>)\<rparr>)"
    by (simp add: replay_def)
  have e2: "replay (\<lambda>h c. if h = ''bad'' then (Some ''rpc failed'', c) else (None, insert h c))
     (\<lambda>fset r. r @ Files fset) 0 \<lparr>Files = [\<lparr>Path = ''a.o'', Hash = ''d1''\<rparr>]\<rparr> ?m
    = (None, [Fetched ''d1'', Replayed \<lparr>Files = [\<lparr>Path = ''a.o'', Hash = ''d1''\<rparr>]\<rparr>, Queued \<lparr>Files = [\<lparr>Path = ''a.o'', Hash = ''d1''\<rparr>]\<rparr>],
       \<lparr>cache = {''d1''}, writableRoot = [\<lparr>Path = ''a.o'', Hash = ''d1''\<rparr>],
        mirrorPool = poolQueueFiles 0 \<lparr>Files = [\<lparr>Path = ''a.o'', Hash = ''d1''\<rparr>]\<rparr> ((newMirrorConnections () [] [] 2)\<lparr>mirrors := [(''a:1'', 0), (''b:1'', Suc 0)], nextConn := 2\<rparr>)\<rparr>)"
    by (simp add: replay_def)
  have q: "pendingChanges (conns (poolQueueFiles 0 \<lparr>Files = [\<lparr>Path = ''a.o'', Hash = ''d1''\<rparr>]\<rparr> ((newMirrorConnections () [] [] 2)\<lparr>mirrors := [(''a:1'', 0), (''b:1'', Suc 0)], nextConn := 2\<rparr>)) (Suc 0)) = [\<lparr>Path = ''a.o'', Hash = ''d1''\<rparr>]"
    by (simp add: poolQueueFiles_def queueFiles_def newMirrorConnections_def blankConnection_def)
  note f1 = replay_fetches_before_applying [THEN conjunct1, rule_format, OF e1, THEN conjunct1]
  from e1 e2 q f1 show ?thesis by simp
qed

end
